theory Spec2Isabelle
  imports Complex_Main "HOL-Library.Word" "HOL-Library.Log_Nat" "HOL-Library.Code_Target_Numeral"
begin

section \<open>JavaScript numbers\<close>

text \<open>
  The planner computes with JavaScript \<^verbatim>\<open>number\<close>s, that is IEEE 754 binary64 values.
  A value is NaN, one of the two infinities, or a finite double, which is carried by the
  rational number it denotes. The two zeros are identified: the code only adds, subtracts,
  multiplies, compares and takes maxima, and none of these tells \<^verbatim>\<open>-0\<close> from \<^verbatim>\<open>+0\<close> except in the
  sign of a zero result.

  \<open>round_double\<close> is round-to-nearest, ties-to-even, onto the binary64 grid: 53 significant
  bits, least exponent \<open>-1074\<close> (subnormals), overflow to infinity from \<open>2 ^ 1024\<close> on. Every
  arithmetic operation below is the exact rational operation followed by \<open>round_double\<close>,
  as IEEE 754 prescribes.
\<close>

datatype number = NaN | NegInf | Finite rat | PosInf

definition ilog :: "nat \<Rightarrow> rat \<Rightarrow> int" where
  \<comment> \<open>\<open>\<lfloor>log\<^sub>b a\<rfloor>\<close> for \<open>a > 0\<close>, from the digit counts of numerator and denominator\<close>
  "ilog b a = (let (p, q) = quotient_of a;
                   e0 = int (floorlog b (nat p)) - int (floorlog b (nat q))
               in if of_nat b powi e0 \<le> a then e0 else e0 - 1)"

definition round_half_even :: "rat \<Rightarrow> int" where
  "round_half_even q = (let f = \<lfloor>q\<rfloor>; d = q - of_int f
     in if d < 1 / 2 then f else if 1 / 2 < d then f + 1 else if even f then f else f + 1)"

definition ulp_exp :: "rat \<Rightarrow> int" where
  \<comment> \<open>exponent of the unit in the last place of the binade of \<open>a > 0\<close>\<close>
  "ulp_exp a = max (ilog 2 a) (- 1022) - 52"

definition overflow_threshold :: rat where
  "overflow_threshold = 2 ^ 1024"

definition round_double :: "rat \<Rightarrow> number" where
  "round_double q =
     (if q = 0 then Finite 0
      else let a = \<bar>q\<bar>;
               ex = ulp_exp a;
               r = of_int (round_half_even (a / 2 powi ex)) * 2 powi ex
           in if overflow_threshold \<le> r then (if 0 < q then PosInf else NegInf)
              else Finite (if 0 < q then r else - r))"

fun is_nan :: "number \<Rightarrow> bool" where
  "is_nan NaN = True"
| "is_nan _ = False"

fun js_neg :: "number \<Rightarrow> number" where
  "js_neg NaN = NaN"
| "js_neg NegInf = PosInf"
| "js_neg PosInf = NegInf"
| "js_neg (Finite q) = Finite (- q)"

fun js_add :: "number \<Rightarrow> number \<Rightarrow> number" where
  "js_add (Finite a) (Finite b) = round_double (a + b)"
| "js_add NaN _ = NaN"
| "js_add _ NaN = NaN"
| "js_add PosInf NegInf = NaN"
| "js_add NegInf PosInf = NaN"
| "js_add PosInf _ = PosInf"
| "js_add _ PosInf = PosInf"
| "js_add NegInf _ = NegInf"
| "js_add _ NegInf = NegInf"

definition js_sub :: "number \<Rightarrow> number \<Rightarrow> number" where
  "js_sub a b = js_add a (js_neg b)"

fun is_negative :: "number \<Rightarrow> bool" where
  "is_negative NegInf = True"
| "is_negative (Finite q) = (q < 0)"
| "is_negative _ = False"

fun js_mul :: "number \<Rightarrow> number \<Rightarrow> number" where
  "js_mul (Finite a) (Finite b) = round_double (a * b)"
| "js_mul NaN _ = NaN"
| "js_mul _ NaN = NaN"
| "js_mul a b =
     (if a = Finite 0 \<or> b = Finite 0 then NaN
      else if is_negative a = is_negative b then PosInf else NegInf)"

fun js_lt :: "number \<Rightarrow> number \<Rightarrow> bool" where
  "js_lt (Finite a) (Finite b) = (a < b)"
| "js_lt NaN _ = False"
| "js_lt _ NaN = False"
| "js_lt _ NegInf = False"
| "js_lt NegInf _ = True"
| "js_lt PosInf _ = False"
| "js_lt _ PosInf = True"

definition js_gt :: "number \<Rightarrow> number \<Rightarrow> bool" where
  "js_gt a b = js_lt b a"

definition math_max :: "number \<Rightarrow> number \<Rightarrow> number" where
  \<comment> \<open>\<^verbatim>\<open>Math.max(a, b)\<close>: NaN as soon as one argument is\<close>
  "math_max a b = (if is_nan a \<or> is_nan b then NaN else if js_lt a b then b else a)"

fun math_round :: "number \<Rightarrow> number" where
  \<comment> \<open>\<^verbatim>\<open>Math.round\<close>: nearest integer, halves towards \<open>+\<infinity>\<close>\<close>
  "math_round (Finite q) = Finite (of_int \<lfloor>q + 1 / 2\<rfloor>)"
| "math_round n = n"

section \<open>JavaScript strings and the conversions between strings and numbers\<close>

text \<open>
  A string is its sequence of UTF-16 code units. \<open>is_space\<close> is the class \<^verbatim>\<open>\s\<close> of a regular
  expression without the \<^verbatim>\<open>u\<close> flag, which is also the white space \<^verbatim>\<open>Number()\<close> trims:
  TAB, LF, VT, FF, CR, SP, NBSP, U+1680, U+2000 to U+200A, U+2028, U+2029, U+202F, U+205F,
  U+3000 and U+FEFF.

  \<open>string_to_number\<close> follows the grammar of ECMAScript's StringToNumber and rounds the exact
  value of the literal. (For a literal of more than 20 significant digits the standard
  also admits the rounding of either neighbouring 20-digit value; engines round the exact
  value.)
\<close>

type_synonym code_unit = "16 word"
type_synonym jsstring = "code_unit list"

definition cu :: "char \<Rightarrow> code_unit" where
  "cu c = of_nat (of_char c)"

definition js :: "string \<Rightarrow> jsstring" where
  "js s = map cu s"

definition is_space :: "code_unit \<Rightarrow> bool" where
  "is_space c \<longleftrightarrow>
     c \<in> {0x9, 0xA, 0xB, 0xC, 0xD, 0x20, 0xA0, 0x1680, 0x2028, 0x2029, 0x202F, 0x205F, 0x3000, 0xFEFF}
     \<or> (0x2000 \<le> c \<and> c \<le> 0x200A)"

definition radix_digit :: "code_unit \<Rightarrow> nat option" where
  "radix_digit c =
     (if cu CHR ''0'' \<le> c \<and> c \<le> cu CHR ''9'' then Some (unat c - 48)
      else if cu CHR ''a'' \<le> c \<and> c \<le> cu CHR ''f'' then Some (unat c - 87)
      else if cu CHR ''A'' \<le> c \<and> c \<le> cu CHR ''F'' then Some (unat c - 55)
      else None)"

definition is_radix_digit :: "nat \<Rightarrow> code_unit \<Rightarrow> bool" where
  "is_radix_digit b c = (case radix_digit c of Some v \<Rightarrow> v < b | None \<Rightarrow> False)"

definition digits_value :: "nat \<Rightarrow> jsstring \<Rightarrow> nat" where
  "digits_value b ds =
     foldl (\<lambda>acc c. acc * b + (case radix_digit c of Some v \<Rightarrow> v | None \<Rightarrow> 0)) 0 ds"

definition is_digits :: "nat \<Rightarrow> jsstring \<Rightarrow> bool" where
  "is_digits b ds \<longleftrightarrow> ds \<noteq> [] \<and> list_all (is_radix_digit b) ds"

definition trim :: "jsstring \<Rightarrow> jsstring" where
  "trim s = rev (dropWhile is_space (rev (dropWhile is_space s)))"

definition radix_prefix :: "code_unit \<Rightarrow> nat option" where
  "radix_prefix x =
     (if x = cu CHR ''x'' \<or> x = cu CHR ''X'' then Some 16
      else if x = cu CHR ''o'' \<or> x = cu CHR ''O'' then Some 8
      else if x = cu CHR ''b'' \<or> x = cu CHR ''B'' then Some 2
      else None)"

definition non_decimal_literal :: "jsstring \<Rightarrow> rat option" where
  \<comment> \<open>\<^verbatim>\<open>0x\<close>, \<^verbatim>\<open>0o\<close> and \<^verbatim>\<open>0b\<close> literals; they take no sign\<close>
  "non_decimal_literal s =
     (case s of
        z # x # ds \<Rightarrow>
          (case radix_prefix x of
             Some b \<Rightarrow>
               if z = cu CHR ''0'' \<and> is_digits b ds then Some (of_nat (digits_value b ds)) else None
           | None \<Rightarrow> None)
      | _ \<Rightarrow> None)"

definition split_sign :: "jsstring \<Rightarrow> bool \<times> jsstring" where
  "split_sign s =
     (case s of
        c # t \<Rightarrow>
          if c = cu CHR ''-'' then (True, t) else if c = cu CHR ''+'' then (False, t) else (False, s)
      | [] \<Rightarrow> (False, []))"

definition exponent_part :: "jsstring \<Rightarrow> int option" where
  "exponent_part s =
     (case s of
        [] \<Rightarrow> Some 0
      | c # t \<Rightarrow>
          if c = cu CHR ''e'' \<or> c = cu CHR ''E'' then
            (let (neg, ds) = split_sign t
             in if is_digits 10 ds
                then Some (if neg then - int (digits_value 10 ds) else int (digits_value 10 ds))
                else None)
          else None)"

definition unsigned_decimal_literal :: "jsstring \<Rightarrow> rat option" where
  \<comment> \<open>digits, an optional point with optional digits, an optional exponent; at least one digit
      before the exponent; the result is the exact mathematical value\<close>
  "unsigned_decimal_literal s =
     (let ip = takeWhile (is_radix_digit 10) s;
          r1 = dropWhile (is_radix_digit 10) s;
          has_dot = (case r1 of c # _ \<Rightarrow> c = cu CHR ''.'' | [] \<Rightarrow> False);
          fp = (if has_dot then takeWhile (is_radix_digit 10) (tl r1) else []);
          r2 = (if has_dot then dropWhile (is_radix_digit 10) (tl r1) else r1)
      in if ip = [] \<and> fp = [] then None
         else case exponent_part r2 of
                None \<Rightarrow> None
              | Some k \<Rightarrow> Some (of_nat (digits_value 10 (ip @ fp)) * 10 powi (k - int (length fp))))"

definition str_decimal_literal :: "jsstring \<Rightarrow> number" where
  "str_decimal_literal s =
     (let (neg, u) = split_sign s
      in if u = js ''Infinity'' then (if neg then NegInf else PosInf)
         else case unsigned_decimal_literal u of
                None \<Rightarrow> NaN
              | Some mv \<Rightarrow> round_double (if neg then - mv else mv))"

definition string_to_number :: "jsstring \<Rightarrow> number" where
  \<comment> \<open>\<^verbatim>\<open>Number(s)\<close> for a string \<open>s\<close> (ECMAScript StringToNumber): trim, the empty string is 0,
      a string outside the grammar of numeric literals is NaN\<close>
  "string_to_number s =
     (let t = trim s
      in if t = [] then Finite 0
         else case non_decimal_literal t of
                Some mv \<Rightarrow> round_double mv
              | None \<Rightarrow> str_decimal_literal t)"


text \<open>
  \<^verbatim>\<open>String(n)\<close> for a number \<open>n\<close> (ECMAScript Number::toString, radix 10): the shortest decimal
  digit string \<open>s\<close> of \<open>k\<close> digits and the decimal exponent \<open>n\<close> with \<open>s * 10 ^ (n - k)\<close> rounding
  to the number, the closest such \<open>s\<close> (the even one of two), laid out plainly for
  \<open>-6 < n \<le> 21\<close> and in exponent notation otherwise. Seventeen digits always suffice for a
  double.
\<close>

fun nat_digits :: "nat \<Rightarrow> nat list" where
  "nat_digits n = (if n < 10 then [n] else nat_digits (n div 10) @ [n mod 10])"

declare nat_digits.simps [simp del]

definition decimal_string :: "nat \<Rightarrow> jsstring" where
  "decimal_string n = map (\<lambda>d. of_nat (48 + d)) (nat_digits n)"

definition digit_candidates :: "rat \<Rightarrow> nat \<Rightarrow> (int \<times> int) list" where
  "digit_candidates x k =
     [(n, s).
        n \<leftarrow> [ilog 10 x + 1, ilog 10 x + 2],
        s \<leftarrow> [\<lfloor>x / 10 powi (n - int k)\<rfloor>, \<lfloor>x / 10 powi (n - int k)\<rfloor> + 1],
        10 ^ (k - 1) \<le> s \<and> s < 10 ^ k \<and> round_double (of_int s * 10 powi (n - int k)) = Finite x]"

definition closer :: "rat \<Rightarrow> nat \<Rightarrow> int \<times> int \<Rightarrow> int \<times> int \<Rightarrow> int \<times> int" where
  "closer x k c1 c2 =
     (let d1 = \<bar>of_int (snd c1) * 10 powi (fst c1 - int k) - x\<bar>;
          d2 = \<bar>of_int (snd c2) * 10 powi (fst c2 - int k) - x\<bar>
      in if d1 < d2 \<or> (d1 = d2 \<and> even (snd c1)) then c1 else c2)"

definition shortest_digits :: "rat \<Rightarrow> nat \<times> int \<times> int" where
  "shortest_digits x =
     (case find (\<lambda>k. digit_candidates x k \<noteq> []) [1..<18] of
        Some k \<Rightarrow>
          (case digit_candidates x k of c # cs \<Rightarrow> (k, foldl (closer x k) c cs) | [] \<Rightarrow> (k, 0, 0))
      | None \<Rightarrow> (1, 0, 0))"

definition positive_to_string :: "rat \<Rightarrow> jsstring" where
  "positive_to_string x =
     (let (k, n, s) = shortest_digits x;
          ds = decimal_string (nat s);
          ex = (if 0 \<le> n - 1 then js ''e+'' else js ''e-'') @ decimal_string (nat \<bar>n - 1\<bar>)
      in if int k \<le> n \<and> n \<le> 21 then ds @ replicate (nat (n - int k)) (cu CHR ''0'')
         else if 0 < n \<and> n \<le> 21 then take (nat n) ds @ js ''.'' @ drop (nat n) ds
         else if - 6 < n \<and> n \<le> 0 then js ''0.'' @ replicate (nat (- n)) (cu CHR ''0'') @ ds
         else if k = 1 then ds @ ex
         else take 1 ds @ js ''.'' @ drop 1 ds @ ex)"

fun number_to_string :: "number \<Rightarrow> jsstring" where
  "number_to_string NaN = js ''NaN''"
| "number_to_string PosInf = js ''Infinity''"
| "number_to_string NegInf = js ''-Infinity''"
| "number_to_string (Finite q) =
     (if q = 0 then js ''0''
      else if q < 0 then js ''-'' @ positive_to_string (- q)
      else positive_to_string q)"

section \<open>\<^verbatim>\<open>parseNum\<close>\<close>

text \<open>
  \<^verbatim>\<open>
  export const parseNum = (v: string | number | null | undefined): number => {
    if (v === undefined || v === null || v === "") return 0;
    const cleanedString = String(v).replace(/[\s\u00A0]/g, "").replace(",", ".");
    const number = Number(cleanedString);
    return isNaN(number) ? 0 : number;
  };
  \<close>
  The argument type is the union below. \<^verbatim>\<open>replace\<close> with the global regular expression deletes
  every white-space code unit; \<^verbatim>\<open>replace\<close> with the string pattern \<^verbatim>\<open>","\<close> rewrites the first
  comma only.
\<close>

datatype jsval = Undefined | Null | Str jsstring | Num number

fun to_string :: "jsval \<Rightarrow> jsstring" where
  "to_string Undefined = js ''undefined''"
| "to_string Null = js ''null''"
| "to_string (Str s) = s"
| "to_string (Num n) = number_to_string n"

fun replace_first :: "code_unit \<Rightarrow> code_unit \<Rightarrow> jsstring \<Rightarrow> jsstring" where
  "replace_first a b [] = []"
| "replace_first a b (c # cs) = (if c = a then b # cs else c # replace_first a b cs)"

definition strip_spaces :: "jsstring \<Rightarrow> jsstring" where
  "strip_spaces s = filter (\<lambda>c. \<not> is_space c) s"

definition plain_char :: "code_unit \<Rightarrow> bool" where
  \<comment> \<open>a code unit that the cleaning of \<open>parseNum\<close> leaves alone\<close>
  "plain_char c \<longleftrightarrow> \<not> is_space c \<and> c \<noteq> cu CHR '',''"

definition parseNum :: "jsval \<Rightarrow> number" where
  "parseNum v =
     (if v = Undefined \<or> v = Null \<or> v = Str [] then Finite 0
      else let cleanedString = replace_first (cu CHR '','') (cu CHR ''.'') (strip_spaces (to_string v));
               number = string_to_number cleanedString
           in if is_nan number then Finite 0 else number)"

section \<open>The scenario calculator of \<^verbatim>\<open>TaxPlanner2026\<close>\<close>

text \<open>
  The nine state variables of the component are strings (each \<^verbatim>\<open>useState\<close> starts from a
  string and each \<^verbatim>\<open>Field\<close> stores \<^verbatim>\<open>e.target.value\<close>). Every \<^verbatim>\<open>useMemo\<close> lists all the values
  its callback reads, so each memoised value is the callback applied to its dependencies;
  the functions below take exactly these dependencies as arguments. Numeric literals of
  the source denote the double nearest to them.
  \<^verbatim>\<open>
  const VAT5 = 0.05;
  const totals = useMemo(() => {
    const trainings = parseNum(revTrainings);
    const camps = parseNum(revCamps);
    const royalty = parseNum(revRoyalty);
    const goods = parseNum(revGoods);
    const sport = trainings + camps;
    const taxable = royalty + goods;
    const total = sport + taxable;
    return { trainings, camps, royalty, goods, sport, taxable, total };
  }, [revTrainings, revCamps, revRoyalty, revGoods]);
  const isVatPayer = parseNum(prevYearRevenue) > parseNum(vatThreshold);
  const usn6 = useMemo(() => {
    const usnTax = totals.taxable * 0.06;
    const vat = isVatPayer ? totals.taxable * VAT5 : 0;
    return { key: "usn6", label: ..., components: { ...: parseNum(psnPatentCost), ...: usnTax, ...: vat },
             totalTax: parseNum(psnPatentCost) + usnTax + vat };
  }, [totals, psnPatentCost, isVatPayer]);
  const usn15 = useMemo(() => {
    const base = Math.max(0, totals.taxable - parseNum(usnProfitExpenses));
    const usnTax = base * 0.15;
    const vat = isVatPayer ? totals.taxable * VAT5 : 0;
    return { key: "usn15", label: ..., components: { ...: parseNum(psnPatentCost), ...: usnTax, ...: vat },
             totalTax: parseNum(psnPatentCost) + usnTax + vat };
  }, [totals, psnPatentCost, usnProfitExpenses, isVatPayer]);
  const ausn8 = useMemo(() => {
    const tax = totals.total * 0.08;
    return { key: "ausn8", label: ..., components: { ...: tax }, totalTax: tax };
  }, [totals]);
  const ausn20 = useMemo(() => {
    const base = Math.max(0, totals.total - parseNum(ausnProfitExpenses));
    const tax = base * 0.20;
    return { key: "ausn20", label: ..., components: { ...: tax }, totalTax: tax };
  }, [totals, ausnProfitExpenses]);
  const scenarios = [usn6, usn15, ausn8, ausn20];
  const best = scenarios.reduce((a, b) => (a.totalTax < b.totalTax ? a : b));
  const chartData = scenarios.map((s) => ({ name: s.label, value: Math.round(s.totalTax) }));
  \<close>
  The two \<^verbatim>\<open>base\<close> constants are \<open>usn15_base\<close> and \<open>ausn20_base\<close>. An object literal keeps its
  keys in the order written, which is the order of the component lists.
\<close>

record inputs =
  revTrainings :: jsstring
  revCamps :: jsstring
  revRoyalty :: jsstring
  revGoods :: jsstring
  usnProfitExpenses :: jsstring
  ausnProfitExpenses :: jsstring
  prevYearRevenue :: jsstring
  vatThreshold :: jsstring
  psnPatentCost :: jsstring

record derived_totals =
  trainings :: number
  camps :: number
  royalty :: number
  goods :: number
  sport :: number
  taxable :: number
  total :: number

record scenario =
  key :: jsstring
  label :: jsstring
  components :: "(jsstring \<times> number) list"
  totalTax :: number

record chart_datum =
  name :: jsstring
  "value" :: number

definition VAT5 :: number where
  "VAT5 = round_double (5 / 100)"

definition totals :: "jsstring \<Rightarrow> jsstring \<Rightarrow> jsstring \<Rightarrow> jsstring \<Rightarrow> derived_totals" where
  "totals rev_trainings rev_camps rev_royalty rev_goods =
     (let trainings = parseNum (Str rev_trainings);
          camps = parseNum (Str rev_camps);
          royalty = parseNum (Str rev_royalty);
          goods = parseNum (Str rev_goods);
          sport = js_add trainings camps;
          taxable = js_add royalty goods;
          total = js_add sport taxable
      in \<lparr>trainings = trainings, camps = camps, royalty = royalty, goods = goods,
          sport = sport, taxable = taxable, total = total\<rparr>)"

definition isVatPayer :: "jsstring \<Rightarrow> jsstring \<Rightarrow> bool" where
  "isVatPayer prev_year_revenue vat_threshold =
     js_gt (parseNum (Str prev_year_revenue)) (parseNum (Str vat_threshold))"

text \<open>
  The keys of the component maps and the labels are Cyrillic string literals in the source;
  they are given by their code units: the patent cost, the USN 6%, USN 15%, VAT 5%,
  AUSN 8% and AUSN 20% lines, and the four scenario labels.
\<close>

definition key_patent :: jsstring where
  "key_patent = [0x421, 0x442, 0x43E, 0x438, 0x43C, 0x43E, 0x441, 0x442, 0x44C, 0x20,
                 0x43F, 0x430, 0x442, 0x435, 0x43D, 0x442, 0x430]"

definition key_usn6 :: jsstring where
  "key_usn6 = [0x423, 0x421, 0x41D, 0x20, 0x36, 0x25]"

definition key_usn15 :: jsstring where
  "key_usn15 = [0x423, 0x421, 0x41D, 0x20, 0x31, 0x35, 0x25]"

definition key_vat5 :: jsstring where
  "key_vat5 = [0x41D, 0x414, 0x421, 0x20, 0x35, 0x25]"

definition key_ausn8 :: jsstring where
  "key_ausn8 = [0x410, 0x423, 0x421, 0x41D, 0x20, 0x38, 0x25]"

definition key_ausn20 :: jsstring where
  "key_ausn20 = [0x410, 0x423, 0x421, 0x41D, 0x20, 0x32, 0x30, 0x25]"

definition label_usn6 :: jsstring where
  "label_usn6 = [0x41F, 0x421, 0x41D, 0x20, 0x28, 0x441, 0x43F, 0x43E, 0x440, 0x442, 0x29, 0x20,
                 0x2B, 0x20, 0x423, 0x421, 0x41D, 0x20, 0x36, 0x25, 0x20, 0x2B, 0x20,
                 0x41D, 0x414, 0x421, 0x20, 0x35, 0x25]"

definition label_usn15 :: jsstring where
  "label_usn15 = [0x41F, 0x421, 0x41D, 0x20, 0x28, 0x441, 0x43F, 0x43E, 0x440, 0x442, 0x29, 0x20,
                  0x2B, 0x20, 0x423, 0x421, 0x41D, 0x20, 0x31, 0x35, 0x25, 0x20, 0x2B, 0x20,
                  0x41D, 0x414, 0x421, 0x20, 0x35, 0x25]"

definition label_ausn8 :: jsstring where
  "label_ausn8 = [0x412, 0x441, 0x451, 0x20, 0x43D, 0x430, 0x20, 0x410, 0x423, 0x421, 0x41D, 0x20,
                  0x38, 0x25, 0x20, 0x28, 0x434, 0x43E, 0x445, 0x43E, 0x434, 0x44B, 0x29]"

definition label_ausn20 :: jsstring where
  "label_ausn20 = [0x412, 0x441, 0x451, 0x20, 0x43D, 0x430, 0x20, 0x410, 0x423, 0x421, 0x41D, 0x20,
                   0x32, 0x30, 0x25, 0x20, 0x28, 0x43F, 0x440, 0x438, 0x431, 0x44B, 0x43B, 0x44C, 0x29]"

definition usn6 :: "derived_totals \<Rightarrow> jsstring \<Rightarrow> bool \<Rightarrow> scenario" where
  "usn6 tot patent_cost is_vat_payer =
     (let usnTax = js_mul (taxable tot) (round_double (6 / 100));
          vat = (if is_vat_payer then js_mul (taxable tot) VAT5 else Finite 0)
      in \<lparr>key = js ''usn6'', label = label_usn6,
          components = [(key_patent, parseNum (Str patent_cost)), (key_usn6, usnTax), (key_vat5, vat)],
          totalTax = js_add (js_add (parseNum (Str patent_cost)) usnTax) vat\<rparr>)"

definition usn15_base :: "derived_totals \<Rightarrow> jsstring \<Rightarrow> number" where
  "usn15_base tot expenses =
     math_max (Finite 0) (js_sub (taxable tot) (parseNum (Str expenses)))"

definition usn15 :: "derived_totals \<Rightarrow> jsstring \<Rightarrow> jsstring \<Rightarrow> bool \<Rightarrow> scenario" where
  "usn15 tot patent_cost expenses is_vat_payer =
     (let base = usn15_base tot expenses;
          usnTax = js_mul base (round_double (15 / 100));
          vat = (if is_vat_payer then js_mul (taxable tot) VAT5 else Finite 0)
      in \<lparr>key = js ''usn15'', label = label_usn15,
          components = [(key_patent, parseNum (Str patent_cost)), (key_usn15, usnTax), (key_vat5, vat)],
          totalTax = js_add (js_add (parseNum (Str patent_cost)) usnTax) vat\<rparr>)"

definition ausn8 :: "derived_totals \<Rightarrow> scenario" where
  "ausn8 tot =
     (let tax = js_mul (total tot) (round_double (8 / 100))
      in \<lparr>key = js ''ausn8'', label = label_ausn8, components = [(key_ausn8, tax)], totalTax = tax\<rparr>)"

definition ausn20_base :: "derived_totals \<Rightarrow> jsstring \<Rightarrow> number" where
  "ausn20_base tot expenses =
     math_max (Finite 0) (js_sub (total tot) (parseNum (Str expenses)))"

definition ausn20 :: "derived_totals \<Rightarrow> jsstring \<Rightarrow> scenario" where
  "ausn20 tot expenses =
     (let base = ausn20_base tot expenses;
          tax = js_mul base (round_double (20 / 100))
      in \<lparr>key = js ''ausn20'', label = label_ausn20, components = [(key_ausn20, tax)], totalTax = tax\<rparr>)"

definition scenarios :: "inputs \<Rightarrow> scenario list" where
  "scenarios inp =
     (let tot = totals (revTrainings inp) (revCamps inp) (revRoyalty inp) (revGoods inp);
          is_vat_payer = isVatPayer (prevYearRevenue inp) (vatThreshold inp)
      in [usn6 tot (psnPatentCost inp) is_vat_payer,
          usn15 tot (psnPatentCost inp) (usnProfitExpenses inp) is_vat_payer,
          ausn8 tot,
          ausn20 tot (ausnProfitExpenses inp)])"

text \<open>
  \<^verbatim>\<open>Array.prototype.reduce\<close> without an initial value starts from the first element and
  throws a TypeError on an empty array (\<open>None\<close>).
\<close>

fun reduce :: "('a \<Rightarrow> 'a \<Rightarrow> 'a) \<Rightarrow> 'a list \<Rightarrow> 'a option" where
  "reduce f [] = None"
| "reduce f (x # xs) = Some (foldl f x xs)"

definition pick :: "scenario \<Rightarrow> scenario \<Rightarrow> scenario" where
  \<comment> \<open>\<^verbatim>\<open>(a, b) => (a.totalTax < b.totalTax ? a : b)\<close>\<close>
  "pick a b = (if js_lt (totalTax a) (totalTax b) then a else b)"

definition best :: "inputs \<Rightarrow> scenario option" where
  "best inp = reduce pick (scenarios inp)"

definition chartData :: "inputs \<Rightarrow> chart_datum list" where
  "chartData inp = map (\<lambda>s. \<lparr>name = label s, value = math_round (totalTax s)\<rparr>) (scenarios inp)"


text \<open>
  The state the component starts in (the arguments of its nine \<^verbatim>\<open>useState\<close> calls), and
  three further states a user can type in.
\<close>

definition initial_inputs :: inputs where
  "initial_inputs =
     \<lparr>revTrainings = js ''8000000'', revCamps = js ''0'', revRoyalty = js ''6000000'',
      revGoods = js ''1000000'', usnProfitExpenses = js ''1200000'',
      ausnProfitExpenses = js ''1200000'', prevYearRevenue = js ''15000000'',
      vatThreshold = js ''10000000'', psnPatentCost = js ''200000''\<rparr>"

definition zero_inputs :: inputs where
  "zero_inputs =
     \<lparr>revTrainings = js ''0'', revCamps = js ''0'', revRoyalty = js ''0'', revGoods = js ''0'',
      usnProfitExpenses = js ''0'', ausnProfitExpenses = js ''0'', prevYearRevenue = js ''0'',
      vatThreshold = js ''0'', psnPatentCost = js ''0''\<rparr>"

definition unit_inputs :: inputs where
  "unit_inputs = zero_inputs \<lparr>revRoyalty := js ''1''\<rparr>"

definition unbounded_inputs :: inputs where
  "unbounded_inputs = zero_inputs \<lparr>revTrainings := js ''Infinity'', ausnProfitExpenses := js ''Infinity''\<rparr>"

section \<open>Rounding to a double\<close>

text \<open>
  \<open>ilog\<close> is the integer logarithm; hence \<open>round_double\<close> can be computed from a certificate:
  the binade \<open>e\<close> of the argument and the integer \<open>m\<close> nearest to its quotient by the unit in
  the last place. Numbers on the binary64 grid are fixed points.
\<close>

lemma ilog_bounds:
  assumes "0 < a" "1 < b"
  shows "of_nat b powi (ilog b a) \<le> a \<and> a < of_nat b powi (ilog b a + 1)"
proof -
  obtain p q where pq: "quotient_of a = (p, q)" by (cases "quotient_of a")
  have q: "0 < q" using pq by (rule quotient_of_denom_pos)
  have a: "a = of_int p / of_int q" using pq by (rule quotient_of_div)
  have p: "0 < p" using assms(1) q a by (simp add: zero_less_divide_iff)
  define B :: rat where "B = of_nat b"
  have B: "1 < B" using assms(2) by (simp add: B_def)
  define fp fq where "fp = floorlog b (nat p)" and "fq = floorlog b (nat q)"
  have bp: "b ^ (fp - 1) \<le> nat p \<and> nat p < b ^ fp"
    unfolding fp_def using p assms(2) by (intro floorlog_bounds) auto
  have bq: "b ^ (fq - 1) \<le> nat q \<and> nat q < b ^ fq"
    unfolding fq_def using q assms(2) by (intro floorlog_bounds) auto
  have fp1: "1 \<le> fp" using bp p by (cases fp) auto
  have fq1: "1 \<le> fq" using bq q by (cases fq) auto
  have P: "B ^ (fp - 1) \<le> of_int p" "of_int p < B ^ fp"
  proof -
    have "of_nat (b ^ (fp - 1)) \<le> (of_nat (nat p) :: rat)" using bp by (simp only: of_nat_le_iff)
    then show "B ^ (fp - 1) \<le> of_int p" using p by (simp add: B_def)
    have "(of_nat (nat p) :: rat) < of_nat (b ^ fp)" using bp by (simp only: of_nat_less_iff)
    then show "of_int p < B ^ fp" using p by (simp add: B_def)
  qed
  have Q: "B ^ (fq - 1) \<le> of_int q" "of_int q < B ^ fq"
  proof -
    have "of_nat (b ^ (fq - 1)) \<le> (of_nat (nat q) :: rat)" using bq by (simp only: of_nat_le_iff)
    then show "B ^ (fq - 1) \<le> of_int q" using q by (simp add: B_def)
    have "(of_nat (nat q) :: rat) < of_nat (b ^ fq)" using bq by (simp only: of_nat_less_iff)
    then show "of_int q < B ^ fq" using q by (simp add: B_def)
  qed
  define e0 where "e0 = int fp - int fq"
  have Bpos: "0 < B" using B by simp
  have up: "a < B powi (e0 + 1)"
  proof -
    have "e0 + 1 = int fp - int (fq - 1)" using fq1 by (simp add: e0_def of_nat_diff)
    then have "B powi (e0 + 1) = B powi (int fp) / B powi (int (fq - 1))"
      using Bpos by (simp add: power_int_diff)
    also have "\<dots> = B ^ fp / B ^ (fq - 1)" by simp
    finally have eq: "B powi (e0 + 1) = B ^ fp / B ^ (fq - 1)" .
    have "a < B ^ fp / of_int q" unfolding a using P(2) q by (simp add: divide_strict_right_mono)
    also have "\<dots> \<le> B ^ fp / B ^ (fq - 1)"
      using Q(1) Bpos by (intro divide_left_mono) (auto intro!: mult_pos_pos simp: q)
    finally show ?thesis using eq by simp
  qed
  have lo: "B powi (e0 - 1) < a"
  proof -
    have "e0 - 1 = int (fp - 1) - int fq" using fp1 by (simp add: e0_def of_nat_diff)
    then have "B powi (e0 - 1) = B powi (int (fp - 1)) / B powi (int fq)"
      using Bpos by (simp add: power_int_diff)
    also have "\<dots> = B ^ (fp - 1) / B ^ fq" by simp
    finally have eq: "B powi (e0 - 1) = B ^ (fp - 1) / B ^ fq" .
    have "B ^ (fp - 1) / B ^ fq < B ^ (fp - 1) / of_int q"
      using Q(2) Bpos q by (intro divide_strict_left_mono) (auto intro!: mult_pos_pos)
    also have "\<dots> \<le> a" unfolding a using P(1) q by (simp add: divide_right_mono)
    finally show ?thesis using eq by simp
  qed
  have il: "ilog b a = (if B powi e0 \<le> a then e0 else e0 - 1)"
    by (simp add: ilog_def pq Let_def fp_def fq_def e0_def B_def)
  show ?thesis
  proof (cases "B powi e0 \<le> a")
    case True
    then show ?thesis using up il by (simp add: B_def)
  next
    case False
    then show ?thesis using lo il by (simp add: B_def)
  qed
qed

lemma ilog_unique:
  assumes "0 < a" "1 < b" "of_nat b powi e \<le> a" "a < of_nat b powi (e + 1)"
  shows "ilog b a = e"
proof -
  define B :: rat where "B = of_nat b"
  have B: "1 < B" using assms(2) by (simp add: B_def)
  from ilog_bounds [OF assms(1,2)]
  have lo: "B powi (ilog b a) \<le> a" and up: "a < B powi (ilog b a + 1)" by (simp_all add: B_def)
  have "B powi (ilog b a) < B powi (e + 1)" using lo assms(4) by (simp add: B_def)
  then have 1: "ilog b a < e + 1"
    using B by (metis power_int_increasing not_le less_imp_le)
  have "B powi e < B powi (ilog b a + 1)" using up assms(3) by (simp add: B_def)
  then have 2: "e < ilog b a + 1"
    using B by (metis power_int_increasing not_le less_imp_le)
  from 1 2 show ?thesis by simp
qed

lemma round_half_even_int [simp]: "round_half_even (of_int m) = m"
  by (simp add: round_half_even_def)

lemma round_half_even_near:
  assumes "\<bar>x - of_int m\<bar> < 1 / 2"
  shows "round_half_even x = m"
proof -
  consider "of_int m \<le> x" | "x < of_int m" by linarith
  then show ?thesis
  proof cases
    case 1
    then have f: "\<lfloor>x\<rfloor> = m" using assms by (intro floor_unique) auto
    show ?thesis using assms 1 by (simp add: round_half_even_def f Let_def)
  next
    case 2
    then have f: "\<lfloor>x\<rfloor> = m - 1" using assms by (intro floor_unique) auto
    show ?thesis using assms 2 by (simp add: round_half_even_def f Let_def)
  qed
qed

lemma round_half_even_nonneg: "0 \<le> x \<Longrightarrow> 0 \<le> round_half_even x"
  by (auto simp add: round_half_even_def Let_def)


lemma ulp_exp_eq:
  assumes "0 < a" "2 powi e \<le> a" "a < 2 powi (e + 1)"
  shows "ulp_exp a = max e (- 1022) - 52"
  using ilog_unique [of a 2 e] assms by (simp add: ulp_exp_def)

lemma round_double_pos_unfold:
  assumes "0 < a"
  shows "round_double a =
     (let r = of_int (round_half_even (a / 2 powi ulp_exp a)) * 2 powi ulp_exp a
      in if overflow_threshold \<le> r then PosInf else Finite r)"
  using assms by (simp add: round_double_def Let_def)

lemma round_double_neg_unfold:
  assumes "0 < a"
  shows "round_double (- a) =
     (let r = of_int (round_half_even (a / 2 powi ulp_exp a)) * 2 powi ulp_exp a
      in if overflow_threshold \<le> r then NegInf else Finite (- r))"
  using assms by (simp add: round_double_def Let_def)

lemma round_double_near:
  assumes "0 < a" "2 powi e \<le> a" "a < 2 powi (e + 1)"
    and "\<bar>a / 2 powi (max e (- 1022) - 52) - of_int m\<bar> < 1 / 2"
    and "r = of_int m * 2 powi (max e (- 1022) - 52)"
    and "r < overflow_threshold"
  shows "round_double a = Finite r" and "round_double (- a) = Finite (- r)"
proof -
  have ex: "ulp_exp a = max e (- 1022) - 52" using assms(1-3) by (rule ulp_exp_eq)
  have m: "round_half_even (a / 2 powi (max e (- 1022) - 52)) = m"
    using assms(4) by (rule round_half_even_near)
  have r: "of_int (round_half_even (a / 2 powi ulp_exp a)) * 2 powi ulp_exp a = r"
    unfolding ex m assms(5) ..
  show "round_double a = Finite r"
    unfolding round_double_pos_unfold [OF assms(1)] r using assms(6) by simp
  show "round_double (- a) = Finite (- r)"
    unfolding round_double_neg_unfold [OF assms(1)] r using assms(6) by simp
qed

lemma round_double_exact_pos:
  assumes "0 < m" "m < 2 ^ 53" "- 1074 \<le> x" "of_int m * 2 powi x < overflow_threshold"
  shows "round_double (of_int m * 2 powi x) = Finite (of_int m * 2 powi x)"
    and "round_double (- (of_int m * 2 powi x)) = Finite (- (of_int m * 2 powi x))"
proof -
  define a :: rat where "a = of_int m * 2 powi x"
  have a: "0 < a" using assms(1) by (simp add: a_def)
  define e where "e = ilog 2 a"
  have b: "2 powi e \<le> a" "a < 2 powi (e + 1)"
    using ilog_bounds [of a 2] a by (simp_all add: e_def)
  have "(of_int m :: rat) < of_int (2 ^ 53)" using assms(2) by (simp only: of_int_less_iff)
  then have "(of_int m :: rat) < 2 ^ 53" by simp
  then have "a < 2 ^ 53 * 2 powi x"
    unfolding a_def by (intro mult_strict_right_mono) simp_all
  also have "\<dots> = 2 powi (53 + x)" by (simp add: power_int_add)
  finally have "(2::rat) powi e < 2 powi (53 + x)" using b(1) by simp
  then have "e < 53 + x"
    by (metis power_int_increasing not_le less_imp_le one_le_numeral)
  then have le: "max e (- 1022) - 52 \<le> x" using assms(3) by simp
  define d where "d = nat (x - (max e (- 1022) - 52))"
  have "(2::rat) powi x = 2 powi (max e (- 1022) - 52) * 2 powi (int d)"
    using le by (simp add: d_def flip: power_int_add)
  then have q: "a / 2 powi (max e (- 1022) - 52) = of_int (m * 2 ^ d)"
    by (simp add: a_def)
  have r: "a = of_int (m * 2 ^ d) * 2 powi (max e (- 1022) - 52)"
    using q by (simp add: field_simps)
  have lt: "a < overflow_threshold" using assms(4) by (simp add: a_def)
  have n: "\<bar>a / 2 powi (max e (- 1022) - 52) - of_int (m * 2 ^ d)\<bar> < 1 / 2"
    by (simp only: q)
  show "round_double (of_int m * 2 powi x) = Finite (of_int m * 2 powi x)"
    using round_double_near(1) [OF a b n r lt] by (simp add: a_def)
  show "round_double (- (of_int m * 2 powi x)) = Finite (- (of_int m * 2 powi x))"
    using round_double_near(2) [OF a b n r lt] by (simp add: a_def)
qed

lemma round_double_exact:
  assumes "a = of_int m * 2 powi x" "\<bar>m\<bar> < 2 ^ 53" "- 1074 \<le> x" "\<bar>a\<bar> < overflow_threshold"
  shows "round_double a = Finite a"
proof -
  consider "m = 0" | "0 < m" | "m < 0" by linarith
  then show ?thesis
  proof cases
    case 1
    then show ?thesis using assms(1) by (simp add: round_double_def)
  next
    case 2
    then have "0 < a" using assms(1) by simp
    then show ?thesis
      using round_double_exact_pos(1) [of m x] 2 assms by simp
  next
    case 3
    then have "a < 0" using assms(1) by (simp add: mult_neg_pos)
    moreover have "a = - (of_int (- m) * 2 powi x)" using assms(1) by simp
    ultimately show ?thesis
      using round_double_exact_pos(2) [of "- m" x] 3 assms by simp
  qed
qed

lemma round_double_int:
  assumes "\<bar>n\<bar> < 2 ^ 53"
  shows "round_double (of_int n) = Finite (of_int n)"
proof -
  have "(of_int \<bar>n\<bar> :: rat) < of_int (2 ^ 53)" using assms by (simp only: of_int_less_iff)
  then have "\<bar>of_int n :: rat\<bar> < 2 ^ 53" by simp
  also have "\<dots> \<le> overflow_threshold" by (simp add: overflow_threshold_def)
  finally show ?thesis
    using round_double_exact [of "of_int n" n 0] assms by simp
qed


lemma round_double_zero [simp]: "round_double 0 = Finite 0"
  by (simp add: round_double_def)

lemma round_double_minus: "round_double (- q) = js_neg (round_double q)"
  by (simp add: round_double_def Let_def)

lemma round_double_nonneg:
  assumes "0 \<le> q"
  shows "round_double q = PosInf \<or> (\<exists>r. 0 \<le> r \<and> round_double q = Finite r)"
proof (cases "q = 0")
  case True
  then show ?thesis by simp
next
  case False
  then have q: "0 < q" using assms by simp
  have "0 \<le> q / 2 powi ulp_exp q" using q by simp
  then have "0 \<le> round_half_even (q / 2 powi ulp_exp q)" by (rule round_half_even_nonneg)
  then have "0 \<le> (of_int (round_half_even (q / 2 powi ulp_exp q)) :: rat) * 2 powi ulp_exp q"
    by simp
  then show ?thesis by (simp add: round_double_pos_unfold [OF q] Let_def)
qed

lemma round_double_not_negative: "0 \<le> q \<Longrightarrow> \<not> js_lt (round_double q) (Finite 0)"
  using round_double_nonneg [of q] by auto

lemma round_double_nonpos:
  assumes "q \<le> 0"
  shows "round_double q = NegInf \<or> (\<exists>r. r \<le> 0 \<and> round_double q = Finite r)"
proof -
  have "round_double q = js_neg (round_double (- q))"
    using round_double_minus [of "- q"] by simp
  then show ?thesis using round_double_nonneg [of "- q"] assms by auto
qed

section \<open>Comparison\<close>

lemma js_lt_irrefl [simp]: "\<not> js_lt a a"
  by (cases a) simp_all

lemma js_lt_asym: "js_lt a b \<Longrightarrow> \<not> js_lt b a"
  by (cases a; cases b) simp_all

lemma js_not_lt_trans:
  "\<not> is_nan b \<Longrightarrow> \<not> js_lt b a \<Longrightarrow> \<not> js_lt c b \<Longrightarrow> \<not> js_lt c a"
  by (cases a; cases b; cases c) simp_all


section \<open>Strings that \<^verbatim>\<open>Number()\<close> accepts\<close>

text \<open>
  Whatever \<open>string_to_number\<close> reads as a number consists, once trimmed, of digits, signs,
  a point, exponent and radix markers and the letters of \<^verbatim>\<open>Infinity\<close>: it holds neither white
  space nor a comma.
\<close>

lemma plain_char_simps [simp]:
  "plain_char (cu CHR ''0'')" "plain_char (cu CHR ''+'')" "plain_char (cu CHR ''-'')"
  "plain_char (cu CHR ''.'')" "plain_char (cu CHR ''e'')" "plain_char (cu CHR ''E'')"
  "plain_char (cu CHR ''x'')" "plain_char (cu CHR ''X'')" "plain_char (cu CHR ''o'')"
  "plain_char (cu CHR ''O'')" "plain_char (cu CHR ''b'')" "plain_char (cu CHR ''B'')"
  by (simp_all add: plain_char_def is_space_def cu_def)

lemma plain_Infinity: "list_all plain_char (js ''Infinity'')"
  by (simp add: plain_char_def is_space_def cu_def js_def)

lemma is_radix_digit_plain: "is_radix_digit b c \<Longrightarrow> plain_char c"
  unfolding is_radix_digit_def radix_digit_def plain_char_def is_space_def cu_def
  by (auto simp: word_le_nat_alt split: if_splits)

lemma is_digits_plain: "is_digits b ds \<Longrightarrow> list_all plain_char ds"
  by (auto simp: is_digits_def list_all_iff intro: is_radix_digit_plain)

lemma takeWhile_digits_plain: "list_all plain_char (takeWhile (is_radix_digit b) s)"
  by (auto simp: list_all_iff dest!: set_takeWhileD intro: is_radix_digit_plain)

lemma split_sign_plain:
  "split_sign s = (neg, u) \<Longrightarrow> list_all plain_char u \<Longrightarrow> list_all plain_char s"
  by (auto simp: split_sign_def split: list.splits if_splits)

lemma radix_prefix_plain: "radix_prefix x = Some b \<Longrightarrow> plain_char x"
  by (auto simp: radix_prefix_def split: if_splits)

lemma non_decimal_literal_plain:
  "non_decimal_literal s = Some mv \<Longrightarrow> list_all plain_char s"
  by (auto simp: non_decimal_literal_def split: list.splits option.splits if_splits
      dest: radix_prefix_plain is_digits_plain)

lemma exponent_part_plain:
  assumes "exponent_part s = Some k"
  shows "list_all plain_char s"
proof (cases s)
  case Nil
  then show ?thesis by simp
next
  case (Cons c t)
  obtain neg ds where sp: "split_sign t = (neg, ds)" by (cases "split_sign t")
  from assms Cons sp have c: "c = cu CHR ''e'' \<or> c = cu CHR ''E''" and ds: "is_digits 10 ds"
    by (auto simp: exponent_part_def split: if_splits)
  from ds have "list_all plain_char ds" by (rule is_digits_plain)
  with sp have "list_all plain_char t" by (rule split_sign_plain)
  with c Cons show ?thesis by auto
qed

lemma unsigned_decimal_literal_plain:
  assumes "unsigned_decimal_literal s = Some mv"
  shows "list_all plain_char s"
proof -
  define r1 where "r1 = dropWhile (is_radix_digit 10) s"
  have s: "s = takeWhile (is_radix_digit 10) s @ r1" by (simp add: r1_def)
  show ?thesis
  proof (cases "case r1 of c # _ \<Rightarrow> c = cu CHR ''.'' | [] \<Rightarrow> False")
    case True
    then obtain t where r1: "r1 = cu CHR ''.'' # t" by (auto split: list.splits)
    define r2 where "r2 = dropWhile (is_radix_digit 10) t"
    have t: "t = takeWhile (is_radix_digit 10) t @ r2" by (simp add: r2_def)
    from assms True r1 obtain k where "exponent_part r2 = Some k"
      by (auto simp: unsigned_decimal_literal_def Let_def r1_def [symmetric] r2_def
          split: if_splits option.splits)
    then have "list_all plain_char r2" by (rule exponent_part_plain)
    then have "list_all plain_char t"
      by (subst t) (simp add: takeWhile_digits_plain)
    then have "list_all plain_char r1" by (simp add: r1)
    then show ?thesis by (subst s) (simp add: takeWhile_digits_plain)
  next
    case False
    with assms obtain k where "exponent_part r1 = Some k"
      by (auto simp: unsigned_decimal_literal_def Let_def r1_def [symmetric]
          split: if_splits option.splits)
    then have "list_all plain_char r1" by (rule exponent_part_plain)
    then show ?thesis by (subst s) (simp add: takeWhile_digits_plain)
  qed
qed

lemma str_decimal_literal_plain:
  assumes "str_decimal_literal s \<noteq> NaN"
  shows "list_all plain_char s"
proof -
  obtain neg u where sp: "split_sign s = (neg, u)" by (cases "split_sign s")
  have "list_all plain_char u"
  proof (cases "u = js ''Infinity''")
    case True
    then show ?thesis by (simp add: plain_Infinity)
  next
    case False
    with assms sp obtain mv where "unsigned_decimal_literal u = Some mv"
      by (auto simp: str_decimal_literal_def split: option.splits)
    then show ?thesis by (rule unsigned_decimal_literal_plain)
  qed
  with sp show ?thesis by (rule split_sign_plain)
qed

lemma string_to_number_plain:
  assumes "string_to_number s \<noteq> NaN"
  shows "list_all plain_char (trim s)"
proof (cases "trim s = []")
  case True
  then show ?thesis by simp
next
  case False
  show ?thesis
  proof (cases "non_decimal_literal (trim s)")
    case None
    with assms False have "str_decimal_literal (trim s) \<noteq> NaN"
      by (simp add: string_to_number_def)
    then show ?thesis by (rule str_decimal_literal_plain)
  next
    case (Some mv)
    then show ?thesis by (rule non_decimal_literal_plain)
  qed
qed

lemma filter_dropWhile: "filter (\<lambda>c. \<not> P c) (dropWhile P s) = filter (\<lambda>c. \<not> P c) s"
  by (induction s) simp_all

lemma strip_spaces_trim: "strip_spaces (trim s) = strip_spaces s"
proof -
  have "strip_spaces (trim s) = rev (filter (\<lambda>c. \<not> is_space c) (dropWhile is_space (rev (dropWhile is_space s))))"
    by (simp add: strip_spaces_def trim_def rev_filter)
  also have "\<dots> = rev (filter (\<lambda>c. \<not> is_space c) (rev (dropWhile is_space s)))"
    by (simp only: filter_dropWhile)
  also have "\<dots> = filter (\<lambda>c. \<not> is_space c) (dropWhile is_space s)"
    by (simp add: rev_filter)
  also have "\<dots> = strip_spaces s"
    by (simp only: filter_dropWhile strip_spaces_def)
  finally show ?thesis .
qed

lemma strip_spaces_plain: "list_all plain_char s \<Longrightarrow> strip_spaces s = s"
  by (induction s) (simp_all add: strip_spaces_def plain_char_def)

lemma dropWhile_none: "list_all (\<lambda>c. \<not> P c) s \<Longrightarrow> dropWhile P s = s"
  by (cases s) simp_all

lemma trim_plain:
  assumes "list_all plain_char s"
  shows "trim s = s"
proof -
  from assms have ns: "list_all (\<lambda>c. \<not> is_space c) s"
    by (simp add: list_all_iff plain_char_def)
  then have "list_all (\<lambda>c. \<not> is_space c) (rev s)" by (simp add: list_all_iff)
  then have "dropWhile is_space (rev s) = rev s" by (rule dropWhile_none)
  with ns show ?thesis by (simp add: trim_def dropWhile_none)
qed

lemma replace_first_absent: "a \<notin> set s \<Longrightarrow> replace_first a b s = s"
  by (induction s) auto

lemma replace_first_plain:
  "list_all plain_char s \<Longrightarrow> replace_first (cu CHR '','') (cu CHR ''.'') s = s"
  by (rule replace_first_absent) (auto simp: list_all_iff plain_char_def)

lemma parseNum_accepted:
  assumes "string_to_number s \<noteq> NaN"
  shows "parseNum (Str s) = string_to_number s"
proof (cases "s = []")
  case True
  then show ?thesis by (simp add: parseNum_def string_to_number_def trim_def)
next
  case False
  have p: "list_all plain_char (trim s)" using assms by (rule string_to_number_plain)
  have "strip_spaces s = trim s"
    using strip_spaces_trim [of s] strip_spaces_plain [OF p] by simp
  then have c: "replace_first (cu CHR '','') (cu CHR ''.'') (strip_spaces s) = trim s"
    using replace_first_plain [OF p] by simp
  have "trim (trim s) = trim s" using p by (rule trim_plain)
  then have "string_to_number (trim s) = string_to_number s"
    by (simp add: string_to_number_def)
  with assms False c show ?thesis by (cases "string_to_number s") (simp_all add: parseNum_def)
qed


section \<open>Commas\<close>

lemma count_list_pos_mem: "0 < count_list xs x \<Longrightarrow> x \<in> set xs"
  by (rule ccontr) simp

lemma count_replace_first:
  "a \<noteq> b \<Longrightarrow> count_list (replace_first a b s) a = count_list s a - 1"
  by (induction s) auto

lemma count_strip_spaces: "\<not> is_space a \<Longrightarrow> count_list (strip_spaces s) a = count_list s a"
  by (induction s) (auto simp: strip_spaces_def)

lemma comma_not_space: "\<not> is_space (cu CHR '','')"
  by (simp add: is_space_def cu_def)

lemma comma_not_dot: "cu CHR '','' \<noteq> cu CHR ''.''"
  by (simp add: cu_def)

lemma string_to_number_comma:
  assumes "cu CHR '','' \<in> set s"
  shows "string_to_number s = NaN"
proof (rule ccontr)
  assume "string_to_number s \<noteq> NaN"
  then have p: "list_all plain_char (trim s)" by (rule string_to_number_plain)
  from assms have "cu CHR '','' \<in> set (strip_spaces s)"
    by (simp add: strip_spaces_def comma_not_space)
  then have "cu CHR '','' \<in> set (strip_spaces (trim s))" by (simp only: strip_spaces_trim)
  then have "cu CHR '','' \<in> set (trim s)" by (simp add: strip_spaces_def)
  with p show False by (auto simp: list_all_iff plain_char_def)
qed

lemma cleaned_two_commas:
  assumes "2 \<le> count_list s (cu CHR '','')"
  shows "cu CHR '','' \<in> set (replace_first (cu CHR '','') (cu CHR ''.'') (strip_spaces s))"
proof -
  have "count_list (replace_first (cu CHR '','') (cu CHR ''.'') (strip_spaces s)) (cu CHR '','')
      = count_list s (cu CHR '','') - 1"
    by (simp add: count_replace_first comma_not_dot count_strip_spaces comma_not_space)
  with assms have "0 < count_list (replace_first (cu CHR '','') (cu CHR ''.'') (strip_spaces s)) (cu CHR '','')"
    by simp
  then show ?thesis by (rule count_list_pos_mem)
qed


section \<open>Evaluation on concrete inputs\<close>

lemma round_double_numeral:
  "numeral k < (2 :: int) ^ 53 \<Longrightarrow> round_double (numeral k) = Finite (numeral k)"
  using round_double_int [of "numeral k"] by simp

lemma round_double_neg_numeral:
  "numeral k < (2 :: int) ^ 53 \<Longrightarrow> round_double (- numeral k) = Finite (- numeral k)"
  using round_double_int [of "- numeral k"] by simp

lemma round_double_one [simp]: "round_double 1 = Finite 1"
  using round_double_int [of 1] by simp

lemma round_double_half: "round_double (2001 / 2) = Finite (2001 / 2)" "round_double (3 / 2) = Finite (3 / 2)"
  using round_double_exact [of "2001 / 2" 2001 "- 1"] round_double_exact [of "3 / 2" 3 "- 1"]
  by (simp_all add: overflow_threshold_def)

lemmas parse_defs = parseNum_def strip_spaces_def cu_def js_def is_space_def radix_digit_def
  is_radix_digit_def digits_value_def is_digits_def trim_def radix_prefix_def
  non_decimal_literal_def split_sign_def exponent_part_def unsigned_decimal_literal_def
  str_decimal_literal_def string_to_number_def round_double_numeral round_double_neg_numeral

lemma parseNum_examples:
  "parseNum (Str (js ''0'')) = Finite 0"
  "parseNum (Str (js ''1'')) = Finite 1"
  "parseNum (Str (js ''200000'')) = Finite 200000"
  "parseNum (Str (js ''1000000'')) = Finite 1000000"
  "parseNum (Str (js ''1200000'')) = Finite 1200000"
  "parseNum (Str (js ''6000000'')) = Finite 6000000"
  "parseNum (Str (js ''8000000'')) = Finite 8000000"
  "parseNum (Str (js ''10000000'')) = Finite 10000000"
  "parseNum (Str (js ''15000000'')) = Finite 15000000"
  "parseNum (Str (js ''20000000'')) = Finite 20000000"
  "parseNum (Str (js ''-100'')) = Finite (- 100)"
  "parseNum (Str (js ''-1000000'')) = Finite (- 1000000)"
  "parseNum (Str (js ''Infinity'')) = PosInf"
  "parseNum (Str (js ''abc'')) = Finite 0"
  "parseNum (Str (js ''1,000,000'')) = Finite 0"
  "parseNum (Str (js ''1 000,50'')) = Finite (2001 / 2)"
  "parseNum (Str (js ''1,5'')) = Finite (3 / 2)"
  by (simp_all add: parse_defs round_double_half)

lemma rate_06: "round_double (3 / 50) = Finite (1080863910568919 / 18014398509481984)"
  by (rule round_double_near(1) [where e = "- 5" and m = 8646911284551352])
     (simp_all add: overflow_threshold_def)

lemma rate_05: "round_double (1 / 20) = Finite (3602879701896397 / 72057594037927936)"
  by (rule round_double_near(1) [where e = "- 5" and m = 7205759403792794])
     (simp_all add: overflow_threshold_def)

lemma rate_15: "round_double (3 / 20) = Finite (5404319552844595 / 36028797018963968)"
  by (rule round_double_near(1) [where e = "- 3" and m = 5404319552844595])
     (simp_all add: overflow_threshold_def)

lemma rate_08: "round_double (2 / 25) = Finite (5764607523034235 / 72057594037927936)"
  by (rule round_double_near(1) [where e = "- 4" and m = 5764607523034235])
     (simp_all add: overflow_threshold_def)

lemma rate_20: "round_double (1 / 5) = Finite (3602879701896397 / 18014398509481984)"
  by (rule round_double_near(1) [where e = "- 3" and m = 7205759403792794])
     (simp_all add: overflow_threshold_def)

lemma mul_7000000_06: "round_double (118219490218475515625 / 281474976710656) = Finite 420000"
  by (rule round_double_near(1) [where e = 18 and m = 7215545057280000])
     (simp_all add: overflow_threshold_def)

lemma mul_7000000_05: "round_double (394064967394918421875 / 1125899906842624) = Finite 350000"
  by (rule round_double_near(1) [where e = 18 and m = 6012954214400000])
     (simp_all add: overflow_threshold_def)

lemma mul_5800000_15: "round_double (489766459476541421875 / 562949953421312) = Finite 870000"
  by (rule round_double_near(1) [where e = 19 and m = 7473243095040000])
     (simp_all add: overflow_threshold_def)

lemma mul_15000000_08: "round_double (1351079888211148828125 / 1125899906842624) = Finite 1200000"
  by (rule round_double_near(1) [where e = 20 and m = 5153960755200000])
     (simp_all add: overflow_threshold_def)

lemma mul_13800000_20: "round_double (776870935721410603125 / 281474976710656) = Finite 2760000"
  by (rule round_double_near(1) [where e = 21 and m = 5927054868480000])
     (simp_all add: overflow_threshold_def)

lemma mul_neg_1000000_06: "round_double (- (16888498602639359375 / 281474976710656)) = Finite (- 60000)"
  by (rule round_double_near(2) [where e = 15 and m = 8246337208320000])
     (simp_all add: overflow_threshold_def)

lemma rate_06_double: "round_double (1080863910568919 / 18014398509481984) = Finite (1080863910568919 / 18014398509481984)"
  using round_double_exact [of "1080863910568919 / 18014398509481984" 1080863910568919 "- 54"] by (simp add: overflow_threshold_def)

lemma rate_05_double: "round_double (3602879701896397 / 72057594037927936) = Finite (3602879701896397 / 72057594037927936)"
  using round_double_exact [of "3602879701896397 / 72057594037927936" 3602879701896397 "- 56"] by (simp add: overflow_threshold_def)

lemma rate_15_double: "round_double (5404319552844595 / 36028797018963968) = Finite (5404319552844595 / 36028797018963968)"
  using round_double_exact [of "5404319552844595 / 36028797018963968" 5404319552844595 "- 55"] by (simp add: overflow_threshold_def)

lemma rate_08_double: "round_double (5764607523034235 / 72057594037927936) = Finite (5764607523034235 / 72057594037927936)"
  using round_double_exact [of "5764607523034235 / 72057594037927936" 5764607523034235 "- 56"] by (simp add: overflow_threshold_def)

lemma rate_20_double: "round_double (3602879701896397 / 18014398509481984) = Finite (3602879701896397 / 18014398509481984)"
  using round_double_exact [of "3602879701896397 / 18014398509481984" 3602879701896397 "- 54"] by (simp add: overflow_threshold_def)


lemmas rate_simps = VAT5_def rate_06 rate_05 rate_15 rate_08 rate_20
  rate_06_double rate_05_double rate_15_double rate_08_double rate_20_double
  mul_7000000_06 mul_7000000_05 mul_5800000_15 mul_15000000_08 mul_13800000_20
  mul_neg_1000000_06 round_double_numeral round_double_neg_numeral

lemma initial_totals:
  "totals (js ''8000000'') (js ''0'') (js ''6000000'') (js ''1000000'') =
     \<lparr>trainings = Finite 8000000, camps = Finite 0, royalty = Finite 6000000,
      goods = Finite 1000000, sport = Finite 8000000, taxable = Finite 7000000,
      total = Finite 15000000\<rparr>"
  by (simp add: totals_def Let_def parseNum_examples round_double_numeral)

section \<open>The derived totals\<close>

text \<open>
  Claim C5. For all four revenue strings, \<open>sport\<close> is the sum of the parsed trainings and
  camps, \<open>taxable\<close> the sum of the parsed royalty and goods, and \<open>total\<close> the sum of \<open>sport\<close>
  and \<open>taxable\<close> (sums of doubles); the strings 8000000, 0, 6000000 and 1000000 give
  \<open>sport = 8000000\<close>, \<open>taxable = 7000000\<close> and \<open>total = 15000000\<close>.
\<close>

theorem totals_derivation:
  "sport (totals t c r g) = js_add (parseNum (Str t)) (parseNum (Str c))
   \<and> taxable (totals t c r g) = js_add (parseNum (Str r)) (parseNum (Str g))
   \<and> total (totals t c r g) =
       js_add (sport (totals t c r g)) (taxable (totals t c r g))
   \<and> sport (totals (js ''8000000'') (js ''0'') (js ''6000000'') (js ''1000000'')) = Finite 8000000
   \<and> taxable (totals (js ''8000000'') (js ''0'') (js ''6000000'') (js ''1000000'')) = Finite 7000000
   \<and> total (totals (js ''8000000'') (js ''0'') (js ''6000000'') (js ''1000000'')) = Finite 15000000"
  by (simp add: initial_totals) (simp add: totals_def Let_def)

section \<open>The VAT status\<close>

text \<open>
  Claim C6. \<open>isVatPayer\<close> holds exactly when the parsed previous-year revenue is strictly
  greater than the parsed threshold: it is the comparison of the two parsed numbers,
  which for finite values is the strict order of the rationals they denote, and it is
  false when the two parsed values are equal. A revenue of 15000000 over a threshold of
  10000000 is a VAT payer; 10000000 over 10000000 is not.
\<close>

theorem isVatPayer_strict:
  "isVatPayer p t = js_lt (parseNum (Str t)) (parseNum (Str p))
   \<and> (parseNum (Str p) = parseNum (Str t) \<longrightarrow> \<not> isVatPayer p t)
   \<and> (\<forall>a b. parseNum (Str p) = Finite a \<and> parseNum (Str t) = Finite b \<longrightarrow> isVatPayer p t = (b < a))
   \<and> isVatPayer (js ''15000000'') (js ''10000000'')
   \<and> \<not> isVatPayer (js ''10000000'') (js ''10000000'')"
  by (simp add: isVatPayer_def js_gt_def parseNum_examples)

theorem isVatPayer_strict_witness:
  "parseNum (Str (js ''10000000'')) = parseNum (Str (js ''10000000''))
   \<and> \<not> isVatPayer (js ''10000000'') (js ''10000000'')
   \<and> parseNum (Str (js ''15000000'')) = Finite 15000000
   \<and> parseNum (Str (js ''10000000'')) = Finite 10000000
   \<and> isVatPayer (js ''15000000'') (js ''10000000'') = ((10000000 :: rat) < 15000000)"
  using isVatPayer_strict [of "js ''10000000''" "js ''10000000''"]
    isVatPayer_strict [of "js ''15000000''" "js ''10000000''"]
  by (simp add: parseNum_examples)

section \<open>The four scenarios\<close>

text \<open>
  Claim C2. For every totals record, patent-cost string and VAT status, the total of
  scenario usn6 is the parsed patent cost plus \<open>taxable * 0.06\<close> plus the VAT line, which is
  \<open>taxable * 0.05\<close> for a VAT payer and 0 otherwise (additions and products of doubles,
  added from left to right); with \<open>taxable = 7000000\<close>, patent cost 200000 and a VAT payer
  the total is 970000.
\<close>

theorem usn6_total:
  "totalTax (usn6 tot pc vat) =
     js_add (js_add (parseNum (Str pc)) (js_mul (taxable tot) (round_double (6 / 100))))
            (if vat then js_mul (taxable tot) (round_double (5 / 100)) else Finite 0)
   \<and> components (usn6 tot pc vat) =
       [(key_patent, parseNum (Str pc)),
        (key_usn6, js_mul (taxable tot) (round_double (6 / 100))),
        (key_vat5, if vat then js_mul (taxable tot) (round_double (5 / 100)) else Finite 0)]
   \<and> (taxable tot = Finite 7000000 \<longrightarrow> totalTax (usn6 tot (js ''200000'') True) = Finite 970000)"
  by (simp add: usn6_def Let_def VAT5_def)
     (simp add: rate_simps parseNum_examples)

theorem usn6_total_witness:
  "taxable (totals (js ''8000000'') (js ''0'') (js ''6000000'') (js ''1000000'')) = Finite 7000000
   \<and> totalTax (usn6 (totals (js ''8000000'') (js ''0'') (js ''6000000'') (js ''1000000''))
         (js ''200000'') True) = Finite 970000"
  using usn6_total [of "totals (js ''8000000'') (js ''0'') (js ''6000000'') (js ''1000000'')"
      "js ''200000''" True, THEN conjunct2, THEN conjunct2]
  by (simp add: initial_totals)

text \<open>
  Claim C3. For every totals record, patent-cost string, expense string and VAT status,
  the total of scenario usn15 is the parsed patent cost plus
  \<open>max(0, taxable - expenses) * 0.15\<close> plus the VAT line (\<open>taxable * 0.05\<close> for a VAT payer,
  0 otherwise); with \<open>taxable = 7000000\<close>, expenses 1200000, patent cost 200000 and a VAT
  payer the total is 1420000.
\<close>

theorem usn15_total:
  "totalTax (usn15 tot pc ex vat) =
     js_add (js_add (parseNum (Str pc))
               (js_mul (math_max (Finite 0) (js_sub (taxable tot) (parseNum (Str ex))))
                       (round_double (15 / 100))))
            (if vat then js_mul (taxable tot) (round_double (5 / 100)) else Finite 0)
   \<and> components (usn15 tot pc ex vat) =
       [(key_patent, parseNum (Str pc)),
        (key_usn15, js_mul (math_max (Finite 0) (js_sub (taxable tot) (parseNum (Str ex))))
                           (round_double (15 / 100))),
        (key_vat5, if vat then js_mul (taxable tot) (round_double (5 / 100)) else Finite 0)]
   \<and> (taxable tot = Finite 7000000 \<longrightarrow>
        totalTax (usn15 tot (js ''200000'') (js ''1200000'') True) = Finite 1420000)"
  by (simp add: usn15_def usn15_base_def Let_def VAT5_def)
     (simp add: rate_simps parseNum_examples math_max_def js_sub_def)

theorem usn15_total_witness:
  "taxable (totals (js ''8000000'') (js ''0'') (js ''6000000'') (js ''1000000'')) = Finite 7000000
   \<and> totalTax (usn15 (totals (js ''8000000'') (js ''0'') (js ''6000000'') (js ''1000000''))
         (js ''200000'') (js ''1200000'') True) = Finite 1420000"
  using usn15_total [of "totals (js ''8000000'') (js ''0'') (js ''6000000'') (js ''1000000'')"
      "js ''200000''" "js ''1200000''" True, THEN conjunct2, THEN conjunct2]
  by (simp add: initial_totals)


text \<open>
  Claim C4. For every totals record and expense string, the total of scenario ausn8 is
  \<open>total * 0.08\<close> and the total of scenario ausn20 is \<open>max(0, total - expenses) * 0.20\<close>. Each
  of the two has this one component, under a key that is neither the VAT key nor the
  patent key, and in the planner neither depends on the previous-year revenue, the VAT
  threshold or the patent cost, hence not on the VAT status. With \<open>total = 15000000\<close> and
  expenses 1200000 the totals are 1200000 and 2760000.
\<close>

theorem ausn_totals:
  "totalTax (ausn8 tot) = js_mul (total tot) (round_double (8 / 100))
   \<and> components (ausn8 tot) = [(key_ausn8, js_mul (total tot) (round_double (8 / 100)))]
   \<and> totalTax (ausn20 tot ex) =
       js_mul (math_max (Finite 0) (js_sub (total tot) (parseNum (Str ex)))) (round_double (20 / 100))
   \<and> components (ausn20 tot ex) =
       [(key_ausn20,
         js_mul (math_max (Finite 0) (js_sub (total tot) (parseNum (Str ex)))) (round_double (20 / 100)))]
   \<and> key_ausn8 \<noteq> key_vat5 \<and> key_ausn8 \<noteq> key_patent
   \<and> key_ausn20 \<noteq> key_vat5 \<and> key_ausn20 \<noteq> key_patent
   \<and> scenarios inp ! 2 =
       ausn8 (totals (revTrainings inp) (revCamps inp) (revRoyalty inp) (revGoods inp))
   \<and> scenarios inp ! 3 =
       ausn20 (totals (revTrainings inp) (revCamps inp) (revRoyalty inp) (revGoods inp))
         (ausnProfitExpenses inp)
   \<and> scenarios (inp \<lparr>prevYearRevenue := p, vatThreshold := v, psnPatentCost := c\<rparr>) ! 2 = scenarios inp ! 2
   \<and> scenarios (inp \<lparr>prevYearRevenue := p, vatThreshold := v, psnPatentCost := c\<rparr>) ! 3 = scenarios inp ! 3
   \<and> (total tot = Finite 15000000 \<longrightarrow>
        totalTax (ausn8 tot) = Finite 1200000 \<and> totalTax (ausn20 tot (js ''1200000'')) = Finite 2760000)"
proof -
  have keys: "key_ausn8 \<noteq> key_vat5 \<and> key_ausn8 \<noteq> key_patent
      \<and> key_ausn20 \<noteq> key_vat5 \<and> key_ausn20 \<noteq> key_patent"
    by (simp add: key_ausn8_def key_ausn20_def key_vat5_def key_patent_def)
  have ex: "total tot = Finite 15000000 \<longrightarrow>
      totalTax (ausn8 tot) = Finite 1200000 \<and> totalTax (ausn20 tot (js ''1200000'')) = Finite 2760000"
    by (simp add: ausn8_def ausn20_def ausn20_base_def Let_def rate_simps parseNum_examples
        math_max_def js_sub_def)
  have sc: "scenarios inp ! 2 =
       ausn8 (totals (revTrainings inp) (revCamps inp) (revRoyalty inp) (revGoods inp))
     \<and> scenarios inp ! 3 =
       ausn20 (totals (revTrainings inp) (revCamps inp) (revRoyalty inp) (revGoods inp))
         (ausnProfitExpenses inp)
     \<and> scenarios (inp \<lparr>prevYearRevenue := p, vatThreshold := v, psnPatentCost := c\<rparr>) ! 2 = scenarios inp ! 2
     \<and> scenarios (inp \<lparr>prevYearRevenue := p, vatThreshold := v, psnPatentCost := c\<rparr>) ! 3 = scenarios inp ! 3"
    by (simp add: scenarios_def Let_def)
  show ?thesis
    using keys ex sc by (simp add: ausn8_def ausn20_def ausn20_base_def Let_def)
qed

theorem ausn_totals_witness:
  "total (totals (js ''8000000'') (js ''0'') (js ''6000000'') (js ''1000000'')) = Finite 15000000
   \<and> totalTax (ausn8 (totals (js ''8000000'') (js ''0'') (js ''6000000'') (js ''1000000'')))
       = Finite 1200000
   \<and> totalTax (ausn20 (totals (js ''8000000'') (js ''0'') (js ''6000000'') (js ''1000000''))
        (js ''1200000'')) = Finite 2760000"
proof -
  have t: "total (totals (js ''8000000'') (js ''0'') (js ''6000000'') (js ''1000000''))
      = Finite 15000000"
    by (simp add: initial_totals)
  from ausn_totals [of "totals (js ''8000000'') (js ''0'') (js ''6000000'') (js ''1000000'')"]
  have "total (totals (js ''8000000'') (js ''0'') (js ''6000000'') (js ''1000000''))
      = Finite 15000000 \<longrightarrow>
     totalTax (ausn8 (totals (js ''8000000'') (js ''0'') (js ''6000000'') (js ''1000000'')))
       = Finite 1200000
     \<and> totalTax (ausn20 (totals (js ''8000000'') (js ''0'') (js ''6000000'') (js ''1000000''))
        (js ''1200000'')) = Finite 2760000"
    by blast
  with t show ?thesis by blast
qed

section \<open>The floor of the profit bases\<close>

lemma math_max_zero_not_negative: "\<not> js_lt (math_max (Finite 0) x) (Finite 0)"
  by (cases x) (simp_all add: math_max_def)

lemma js_mul_not_negative:
  assumes "\<not> js_lt a (Finite 0)" "0 \<le> r"
  shows "\<not> js_lt (js_mul a (Finite r)) (Finite 0)"
proof (cases a)
  case (Finite q)
  with assms have "0 \<le> q * r" by simp
  then show ?thesis using Finite by (simp add: round_double_not_negative)
qed (use assms in auto)

lemma js_sub_of_less:
  assumes "js_lt a b"
  shows "js_sub a b = NegInf \<or> (\<exists>r. r \<le> 0 \<and> js_sub a b = Finite r)"
proof (cases a)
  case fa: (Finite x)
  show ?thesis
  proof (cases b)
    case (Finite y)
    with fa assms have "x + - y \<le> 0" by simp
    then show ?thesis using fa Finite round_double_nonpos [of "x + - y"] by (simp add: js_sub_def)
  qed (use fa assms in \<open>simp_all add: js_sub_def\<close>)
qed (use assms in \<open>cases b; simp add: js_sub_def\<close>)+

lemma floor_of_less: "js_lt a b \<Longrightarrow> math_max (Finite 0) (js_sub a b) = Finite 0"
  using js_sub_of_less [of a b] by (auto simp: math_max_def)

lemma profit_rates:
  "round_double (15 / 100) = Finite (5404319552844595 / 36028797018963968)"
  "round_double (20 / 100) = Finite (3602879701896397 / 18014398509481984)"
  by (simp_all add: rate_15 rate_20)

text \<open>
  Claim C8. For all inputs the profit bases of usn15 (\<open>taxable\<close> minus the parsed expenses)
  and of ausn20 (\<open>total\<close> minus the parsed expenses) pass through \<open>max(0, _)\<close> before the rate
  is applied. The base is never below zero, the tax computed from it (the USN 15% line,
  the AUSN 20% total) is never below zero, and whenever the parsed expenses exceed the
  revenue base the profit base is exactly 0 and so is the tax.
\<close>

theorem profit_base_floor:
  "usn15_base tot ex = math_max (Finite 0) (js_sub (taxable tot) (parseNum (Str ex)))
   \<and> ausn20_base tot ex = math_max (Finite 0) (js_sub (total tot) (parseNum (Str ex)))
   \<and> components (usn15 tot pc ex vat) ! 1 =
       (key_usn15, js_mul (usn15_base tot ex) (round_double (15 / 100)))
   \<and> totalTax (ausn20 tot ex) = js_mul (ausn20_base tot ex) (round_double (20 / 100))
   \<and> \<not> js_lt (usn15_base tot ex) (Finite 0)
   \<and> \<not> js_lt (ausn20_base tot ex) (Finite 0)
   \<and> \<not> js_lt (js_mul (usn15_base tot ex) (round_double (15 / 100))) (Finite 0)
   \<and> \<not> js_lt (totalTax (ausn20 tot ex)) (Finite 0)
   \<and> (js_gt (parseNum (Str ex)) (taxable tot) \<longrightarrow>
        usn15_base tot ex = Finite 0
        \<and> js_mul (usn15_base tot ex) (round_double (15 / 100)) = Finite 0)
   \<and> (js_gt (parseNum (Str ex)) (total tot) \<longrightarrow>
        ausn20_base tot ex = Finite 0 \<and> totalTax (ausn20 tot ex) = Finite 0)"
proof -
  have b1: "\<not> js_lt (usn15_base tot ex) (Finite 0)"
    by (simp add: usn15_base_def math_max_zero_not_negative)
  have b2: "\<not> js_lt (ausn20_base tot ex) (Finite 0)"
    by (simp add: ausn20_base_def math_max_zero_not_negative)
  have t1: "\<not> js_lt (js_mul (usn15_base tot ex) (round_double (15 / 100))) (Finite 0)"
    unfolding profit_rates using b1 by (rule js_mul_not_negative) simp
  have t2: "\<not> js_lt (js_mul (ausn20_base tot ex) (round_double (20 / 100))) (Finite 0)"
    unfolding profit_rates using b2 by (rule js_mul_not_negative) simp
  have z1: "js_gt (parseNum (Str ex)) (taxable tot) \<longrightarrow>
        usn15_base tot ex = Finite 0
        \<and> js_mul (usn15_base tot ex) (round_double (15 / 100)) = Finite 0"
    by (simp add: js_gt_def usn15_base_def floor_of_less rate_15)
  have z2: "js_gt (parseNum (Str ex)) (total tot) \<longrightarrow>
        ausn20_base tot ex = Finite 0
        \<and> js_mul (ausn20_base tot ex) (round_double (20 / 100)) = Finite 0"
    by (simp add: js_gt_def ausn20_base_def floor_of_less rate_20)
  have d: "usn15_base tot ex = math_max (Finite 0) (js_sub (taxable tot) (parseNum (Str ex)))
      \<and> ausn20_base tot ex = math_max (Finite 0) (js_sub (total tot) (parseNum (Str ex)))
      \<and> components (usn15 tot pc ex vat) ! 1 =
          (key_usn15, js_mul (usn15_base tot ex) (round_double (15 / 100)))
      \<and> totalTax (ausn20 tot ex) = js_mul (ausn20_base tot ex) (round_double (20 / 100))"
    by (simp add: usn15_base_def ausn20_base_def usn15_def ausn20_def Let_def)
  from d have e: "totalTax (ausn20 tot ex) = js_mul (ausn20_base tot ex) (round_double (20 / 100))"
    by blast
  show ?thesis
    using b1 b2 t1 t2 z1 z2 d unfolding e by blast
qed

theorem profit_base_floor_witness:
  "js_gt (parseNum (Str (js ''20000000'')))
     (taxable (totals (js ''8000000'') (js ''0'') (js ''6000000'') (js ''1000000'')))
   \<and> js_gt (parseNum (Str (js ''20000000'')))
     (total (totals (js ''8000000'') (js ''0'') (js ''6000000'') (js ''1000000'')))
   \<and> usn15_base (totals (js ''8000000'') (js ''0'') (js ''6000000'') (js ''1000000''))
       (js ''20000000'') = Finite 0
   \<and> totalTax (ausn20 (totals (js ''8000000'') (js ''0'') (js ''6000000'') (js ''1000000''))
       (js ''20000000'')) = Finite 0"
proof -
  have g: "js_gt (parseNum (Str (js ''20000000'')))
       (taxable (totals (js ''8000000'') (js ''0'') (js ''6000000'') (js ''1000000'')))"
    "js_gt (parseNum (Str (js ''20000000'')))
       (total (totals (js ''8000000'') (js ''0'') (js ''6000000'') (js ''1000000'')))"
    by (simp_all add: initial_totals parseNum_examples js_gt_def)
  with profit_base_floor
    [of "totals (js ''8000000'') (js ''0'') (js ''6000000'') (js ''1000000'')" "js ''20000000''"]
  show ?thesis by blast
qed


section \<open>What \<^verbatim>\<open>parseNum\<close> returns\<close>

lemma parseNum_not_nan: "\<not> is_nan (parseNum v)"
  by (simp add: parseNum_def Let_def)

lemma strip_spaces_no_space: "list_all (\<lambda>c. \<not> is_space c) (strip_spaces s)"
  by (simp add: strip_spaces_def list_all_iff)

lemma strip_spaces_idem: "strip_spaces (strip_spaces s) = strip_spaces s"
  by (simp add: strip_spaces_def)

lemma parseNum_strip_spaces: "parseNum (Str (strip_spaces s)) = parseNum (Str s)"
proof (cases "strip_spaces s = []")
  case True
  then have "s = [] \<or> parseNum (Str s) = Finite 0"
    by (simp add: parseNum_def string_to_number_def trim_def)
  then show ?thesis using True by (auto simp: parseNum_def strip_spaces_def)
next
  case False
  then have "s \<noteq> []" by (auto simp: strip_spaces_def)
  with False show ?thesis by (simp add: parseNum_def strip_spaces_idem)
qed

text \<open>
  Claim C7. \<open>parseNum\<close> is total and never returns NaN, whatever string, number, null or
  undefined it is given. It returns 0 for null, undefined and the empty string; for any
  other argument it deletes all white space (the no-break space U+00A0 included) from the
  argument's string, rewrites a comma to a point, converts with \<^verbatim>\<open>Number\<close> and returns 0
  when that is NaN, so that white space in the argument never matters; the number NaN
  itself is mapped to 0. It maps
  \<^verbatim>\<open>"1 000,50"\<close> to 1000.5, \<^verbatim>\<open>"1,5"\<close> to 1.5 and \<^verbatim>\<open>"abc"\<close> to 0.
\<close>

theorem parseNum_total:
  "\<not> is_nan (parseNum v)
   \<and> parseNum Undefined = Finite 0 \<and> parseNum Null = Finite 0 \<and> parseNum (Str []) = Finite 0
   \<and> (v \<noteq> Undefined \<and> v \<noteq> Null \<and> v \<noteq> Str [] \<longrightarrow>
        parseNum v =
          (let n = string_to_number
                     (replace_first (cu CHR '','') (cu CHR ''.'') (strip_spaces (to_string v)))
           in if is_nan n then Finite 0 else n))
   \<and> list_all (\<lambda>c. \<not> is_space c) (strip_spaces s)
   \<and> is_space 0xA0
   \<and> parseNum (Str (strip_spaces s)) = parseNum (Str s)
   \<and> parseNum (Num NaN) = Finite 0
   \<and> parseNum (Str (js ''1 000,50'')) = Finite (2001 / 2)
   \<and> parseNum (Str (js ''1,5'')) = Finite (3 / 2)
   \<and> parseNum (Str (js ''abc'')) = Finite 0"
proof -
  have "parseNum (Num NaN) = Finite 0" by (simp add: parse_defs)
  then show ?thesis
    using parseNum_not_nan [of v] strip_spaces_no_space [of s] parseNum_strip_spaces [of s]
    by (simp add: parseNum_examples) (simp add: parseNum_def is_space_def)
qed

theorem parseNum_total_witness:
  "Str (js ''abc'') \<noteq> Undefined \<and> Str (js ''abc'') \<noteq> Null \<and> Str (js ''abc'') \<noteq> Str []
   \<and> string_to_number (replace_first (cu CHR '','') (cu CHR ''.'') (strip_spaces (js ''abc''))) = NaN
   \<and> parseNum (Str (js ''abc'')) = Finite 0
   \<and> \<not> is_nan (parseNum (Str (js ''abc'')))"
  using parseNum_total [of "Str (js ''abc'')"]
  by (simp add: parse_defs)

text \<open>
  Claim C9. \<open>parseNum\<close> does not clamp negative values: every string that \<^verbatim>\<open>Number\<close> reads as
  a negative finite number is mapped to that number, for instance \<^verbatim>\<open>"-100"\<close> to \<open>-100\<close>.
  Negative amounts reach the aggregates and the scenario totals: a royalty of
  \<^verbatim>\<open>"-1000000"\<close> beside zeros makes \<open>taxable\<close> equal to \<open>-1000000\<close> and the total of usn6 equal
  to \<open>-60000\<close>, which is below zero.
\<close>

theorem parseNum_keeps_negative:
  "(string_to_number s = Finite q \<and> q < 0 \<longrightarrow> parseNum (Str s) = Finite q)
   \<and> parseNum (Str (js ''-100'')) = Finite (- 100)
   \<and> taxable (totals (js ''0'') (js ''0'') (js ''-1000000'') (js ''0'')) = Finite (- 1000000)
   \<and> totalTax (usn6 (totals (js ''0'') (js ''0'') (js ''-1000000'') (js ''0'')) (js ''0'') False)
       = Finite (- 60000)
   \<and> js_lt (totalTax (usn6 (totals (js ''0'') (js ''0'') (js ''-1000000'') (js ''0''))
        (js ''0'') False)) (Finite 0)"
proof -
  have g: "string_to_number s = Finite q \<and> q < 0 \<longrightarrow> parseNum (Str s) = Finite q"
    using parseNum_accepted [of s] by auto
  have t: "totals (js ''0'') (js ''0'') (js ''-1000000'') (js ''0'') =
     \<lparr>trainings = Finite 0, camps = Finite 0, royalty = Finite (- 1000000), goods = Finite 0,
      sport = Finite 0, taxable = Finite (- 1000000), total = Finite (- 1000000)\<rparr>"
    by (simp add: totals_def Let_def parseNum_examples round_double_neg_numeral)
  have u: "totalTax (usn6 (totals (js ''0'') (js ''0'') (js ''-1000000'') (js ''0'')) (js ''0'') False)
       = Finite (- 60000)"
    by (simp add: t usn6_def Let_def rate_simps parseNum_examples)
  show ?thesis using g by (simp add: u) (simp add: t parseNum_examples)
qed

theorem parseNum_keeps_negative_witness:
  "string_to_number (js ''-100'') = Finite (- 100) \<and> (- 100 :: rat) < 0
   \<and> parseNum (Str (js ''-100'')) = Finite (- 100)"
proof -
  have "string_to_number (js ''-100'') = Finite (- 100)" by (simp add: parse_defs)
  with parseNum_keeps_negative [of "js ''-100''" "- 100"] show ?thesis by simp
qed

text \<open>
  Claim C10. \<open>parseNum\<close> deletes all white space but rewrites the first comma only: for
  every string with two or more commas the cleaned string still holds a comma, \<^verbatim>\<open>Number\<close>
  gives NaN for it and \<open>parseNum\<close> returns 0. So \<^verbatim>\<open>"1,000,000"\<close> is cleaned to
  \<^verbatim>\<open>"1.000,000"\<close> and gives 0, while \<^verbatim>\<open>"1 000,50"\<close>, with inner spaces and one comma, is
  parsed to 1000.5.
\<close>

theorem parseNum_first_comma_only:
  "(2 \<le> count_list s (cu CHR '','') \<longrightarrow>
      cu CHR '','' \<in> set (replace_first (cu CHR '','') (cu CHR ''.'') (strip_spaces s))
      \<and> string_to_number (replace_first (cu CHR '','') (cu CHR ''.'') (strip_spaces s)) = NaN
      \<and> parseNum (Str s) = Finite 0)
   \<and> replace_first (cu CHR '','') (cu CHR ''.'') (strip_spaces (js ''1,000,000'')) = js ''1.000,000''
   \<and> parseNum (Str (js ''1,000,000'')) = Finite 0
   \<and> replace_first (cu CHR '','') (cu CHR ''.'') (strip_spaces (js ''1 000,50'')) = js ''1000.50''
   \<and> parseNum (Str (js ''1 000,50'')) = Finite (2001 / 2)"
proof -
  have g: "cu CHR '','' \<in> set (replace_first (cu CHR '','') (cu CHR ''.'') (strip_spaces s))
      \<and> string_to_number (replace_first (cu CHR '','') (cu CHR ''.'') (strip_spaces s)) = NaN
      \<and> parseNum (Str s) = Finite 0"
    if "2 \<le> count_list s (cu CHR '','')"
  proof -
    from that have c: "cu CHR '','' \<in> set (replace_first (cu CHR '','') (cu CHR ''.'') (strip_spaces s))"
      by (rule cleaned_two_commas)
    then have n: "string_to_number (replace_first (cu CHR '','') (cu CHR ''.'') (strip_spaces s)) = NaN"
      by (rule string_to_number_comma)
    from that have "s \<noteq> []" by auto
    with n have "parseNum (Str s) = Finite 0" by (simp add: parseNum_def)
    with c n show ?thesis by simp
  qed
  have e: "replace_first (cu CHR '','') (cu CHR ''.'') (strip_spaces (js ''1,000,000'')) = js ''1.000,000''"
    "replace_first (cu CHR '','') (cu CHR ''.'') (strip_spaces (js ''1 000,50'')) = js ''1000.50''"
    by (simp_all add: strip_spaces_def js_def cu_def is_space_def)
  show ?thesis using g e by (simp add: parseNum_examples)
qed

theorem parseNum_first_comma_only_witness:
  "2 \<le> count_list (js ''1,000,000'') (cu CHR '','')
   \<and> string_to_number (replace_first (cu CHR '','') (cu CHR ''.'') (strip_spaces (js ''1,000,000''))) = NaN
   \<and> parseNum (Str (js ''1,000,000'')) = Finite 0"
proof -
  have "2 \<le> count_list (js ''1,000,000'') (cu CHR '','')" by (simp add: js_def cu_def)
  with parseNum_first_comma_only [of "js ''1,000,000''"] show ?thesis by blast
qed


section \<open>The best scenario\<close>

lemma foldl_pick_select:
  "\<exists>i<length (x # xs). foldl pick x xs = (x # xs) ! i
     \<and> (\<forall>j. i < j \<and> j < length (x # xs) \<longrightarrow>
          js_lt (totalTax ((x # xs) ! i)) (totalTax ((x # xs) ! j)))
     \<and> ((\<forall>j<length (x # xs). \<not> is_nan (totalTax ((x # xs) ! j))) \<longrightarrow>
          (\<forall>j<length (x # xs). \<not> js_lt (totalTax ((x # xs) ! j)) (totalTax ((x # xs) ! i))))"
proof (induction xs rule: rev_induct)
  case Nil
  show ?case by simp
next
  case (snoc y xs)
  define l where "l = x # xs"
  have l': "x # xs @ [y] = l @ [y]" by (simp add: l_def)
  from snoc obtain i where i: "i < length l" "foldl pick x xs = l ! i"
    and later: "\<And>j. i < j \<Longrightarrow> j < length l \<Longrightarrow> js_lt (totalTax (l ! i)) (totalTax (l ! j))"
    and least: "(\<forall>j<length l. \<not> is_nan (totalTax (l ! j))) \<Longrightarrow>
        (\<forall>j<length l. \<not> js_lt (totalTax (l ! j)) (totalTax (l ! i)))"
    unfolding l_def [symmetric] by blast
  have old: "(l @ [y]) ! j = l ! j" if "j < length l" for j
    using that by (simp add: nth_append)
  have new: "(l @ [y]) ! length l = y" by simp
  have split: "j < length l \<or> j = length l" if "j < length (l @ [y])" for j
    using that by auto
  have f: "foldl pick x (xs @ [y]) = pick (l ! i) y" by (simp add: i(2))
  have nn: "\<forall>j<length l. \<not> is_nan (totalTax (l ! j))"
    if "\<forall>j<length (l @ [y]). \<not> is_nan (totalTax ((l @ [y]) ! j))"
  proof (intro allI impI)
    fix j assume j: "j < length l"
    then have "j < length (l @ [y])" by simp
    with that have "\<not> is_nan (totalTax ((l @ [y]) ! j))" by blast
    then show "\<not> is_nan (totalTax (l ! j))" using old [OF j] by simp
  qed
  show ?case
  proof (cases "js_lt (totalTax (l ! i)) (totalTax y)")
    case True
    have 1: "foldl pick x (xs @ [y]) = (l @ [y]) ! i"
      using True f old [OF i(1)] by (simp add: pick_def)
    have 2: "js_lt (totalTax ((l @ [y]) ! i)) (totalTax ((l @ [y]) ! j))"
      if "i < j" "j < length (l @ [y])" for j
      using split [OF that(2)]
    proof
      assume j: "j < length l"
      from later [OF that(1) j] show ?thesis using old [OF j] old [OF i(1)] by simp
    next
      assume "j = length l"
      then show ?thesis using True new old [OF i(1)] by simp
    qed
    have 3: "\<not> js_lt (totalTax ((l @ [y]) ! j)) (totalTax ((l @ [y]) ! i))"
      if a: "\<forall>j<length (l @ [y]). \<not> is_nan (totalTax ((l @ [y]) ! j))" and b: "j < length (l @ [y])" for j
      using split [OF b]
    proof
      assume j: "j < length l"
      from least [OF nn [OF a]] j have "\<not> js_lt (totalTax (l ! j)) (totalTax (l ! i))" by blast
      then show ?thesis using old [OF j] old [OF i(1)] by simp
    next
      assume "j = length l"
      then show ?thesis using True new old [OF i(1)] js_lt_asym by simp
    qed
    have "i < length (l @ [y])" using i(1) by simp
    with 1 2 3 show ?thesis unfolding l' by blast
  next
    case False
    have 1: "foldl pick x (xs @ [y]) = (l @ [y]) ! length l"
      using False f by (simp add: pick_def)
    have 2: "js_lt (totalTax ((l @ [y]) ! length l)) (totalTax ((l @ [y]) ! j))"
      if "length l < j" "j < length (l @ [y])" for j
      using that by simp
    have 3: "\<not> js_lt (totalTax ((l @ [y]) ! j)) (totalTax ((l @ [y]) ! length l))"
      if a: "\<forall>j<length (l @ [y]). \<not> is_nan (totalTax ((l @ [y]) ! j))" and b: "j < length (l @ [y])" for j
      using split [OF b]
    proof
      assume j: "j < length l"
      have rn: "\<not> is_nan (totalTax (l ! i))" using nn [OF a] i(1) by blast
      from least [OF nn [OF a]] j have "\<not> js_lt (totalTax (l ! j)) (totalTax (l ! i))" by blast
      with rn False have "\<not> js_lt (totalTax (l ! j)) (totalTax y)" by (rule js_not_lt_trans)
      then show ?thesis using old [OF j] by simp
    next
      assume "j = length l"
      then show ?thesis by simp
    qed
    have "length l < length (l @ [y])" by simp
    with 1 2 3 show ?thesis unfolding l' by blast
  qed
qed

lemma scenarios_length: "length (scenarios inp) = 4"
  by (simp add: scenarios_def Let_def)

lemma scenarios_keys:
  "map key (scenarios inp) = [js ''usn6'', js ''usn15'', js ''ausn8'', js ''ausn20'']"
  by (simp add: scenarios_def Let_def usn6_def usn15_def ausn8_def ausn20_def)

lemma best_select:
  "\<exists>i<4. best inp = Some (scenarios inp ! i)
     \<and> (\<forall>j. i < j \<and> j < 4 \<longrightarrow>
          js_lt (totalTax (scenarios inp ! i)) (totalTax (scenarios inp ! j)))
     \<and> ((\<forall>j<4. \<not> is_nan (totalTax (scenarios inp ! j))) \<longrightarrow>
          (\<forall>j<4. \<not> js_lt (totalTax (scenarios inp ! j)) (totalTax (scenarios inp ! i))))"
proof -
  obtain x xs where l: "scenarios inp = x # xs" and n: "length xs = 3"
    using scenarios_length [of inp] by (cases "scenarios inp") auto
  have "length (x # xs) = 4" using n by simp
  with foldl_pick_select [of x xs] show ?thesis
    unfolding best_def l reduce.simps by (simp only: option.inject)
qed

lemma initial_scenarios:
  "map totalTax (scenarios initial_inputs) =
     [Finite 970000, Finite 1420000, Finite 1200000, Finite 2760000]"
  by (simp add: scenarios_def initial_inputs_def initial_totals isVatPayer_def js_gt_def
      parseNum_examples usn6_def usn15_def usn15_base_def ausn8_def ausn20_def ausn20_base_def
      Let_def rate_simps math_max_def js_sub_def)

lemma zero_totals:
  "totals (js ''0'') (js ''0'') (js ''0'') (js ''0'') =
     \<lparr>trainings = Finite 0, camps = Finite 0, royalty = Finite 0, goods = Finite 0,
      sport = Finite 0, taxable = Finite 0, total = Finite 0\<rparr>"
  by (simp add: totals_def Let_def parseNum_examples)

lemma zero_scenarios:
  "map totalTax (scenarios zero_inputs) = [Finite 0, Finite 0, Finite 0, Finite 0]"
  by (simp add: scenarios_def zero_inputs_def zero_totals isVatPayer_def js_gt_def
      parseNum_examples usn6_def usn15_def usn15_base_def ausn8_def ausn20_def ausn20_base_def
      Let_def rate_simps math_max_def js_sub_def)

lemma unit_totals:
  "totals (js ''0'') (js ''0'') (js ''1'') (js ''0'') =
     \<lparr>trainings = Finite 0, camps = Finite 0, royalty = Finite 1, goods = Finite 0,
      sport = Finite 0, taxable = Finite 1, total = Finite 1\<rparr>"
  by (simp add: totals_def Let_def parseNum_examples)

lemma unit_scenarios:
  "map totalTax (scenarios unit_inputs) =
     [Finite (1080863910568919 / 18014398509481984), Finite (5404319552844595 / 36028797018963968),
      Finite (5764607523034235 / 72057594037927936), Finite (3602879701896397 / 18014398509481984)]"
  by (simp add: scenarios_def unit_inputs_def zero_inputs_def unit_totals isVatPayer_def js_gt_def
      parseNum_examples usn6_def usn15_def usn15_base_def ausn8_def ausn20_def ausn20_base_def
      Let_def rate_simps math_max_def js_sub_def)

lemma unbounded_totals:
  "totals (js ''Infinity'') (js ''0'') (js ''0'') (js ''0'') =
     \<lparr>trainings = PosInf, camps = Finite 0, royalty = Finite 0, goods = Finite 0,
      sport = PosInf, taxable = Finite 0, total = PosInf\<rparr>"
  by (simp add: totals_def Let_def parseNum_examples)

lemma unbounded_scenarios:
  "map totalTax (scenarios unbounded_inputs) = [Finite 0, Finite 0, PosInf, NaN]"
  by (simp add: scenarios_def unbounded_inputs_def zero_inputs_def unbounded_totals isVatPayer_def
      js_gt_def parseNum_examples usn6_def usn15_def usn15_base_def ausn8_def ausn20_def
      ausn20_base_def Let_def rate_simps math_max_def js_sub_def)

lemma best_unfold:
  "scenarios inp = [a, b, c, d] \<Longrightarrow> best inp = Some (pick (pick (pick a b) c) d)"
  by (simp add: best_def)

lemma scenarios_four:
  "\<exists>a b c d. scenarios inp = [a, b, c, d]"
  by (simp add: scenarios_def Let_def)

lemma best_by_totals:
  assumes "map totalTax (scenarios inp) = [ta, tb, tc, td]"
  shows "map_option totalTax (best inp) =
           Some (let t1 = (if js_lt ta tb then ta else tb);
                     t2 = (if js_lt t1 tc then t1 else tc)
                 in if js_lt t2 td then t2 else td)"
    and "map_option key (best inp) =
           Some (let k1 = (if js_lt ta tb then (js ''usn6'', ta) else (js ''usn15'', tb));
                     k2 = (if js_lt (snd k1) tc then k1 else (js ''ausn8'', tc))
                 in if js_lt (snd k2) td then fst k2 else js ''ausn20'')"
proof -
  obtain a b c d where l: "scenarios inp = [a, b, c, d]" using scenarios_four by blast
  from assms l have t: "totalTax a = ta" "totalTax b = tb" "totalTax c = tc" "totalTax d = td"
    by simp_all
  from scenarios_keys [of inp] l
  have k: "key a = js ''usn6''" "key b = js ''usn15''" "key c = js ''ausn8''" "key d = js ''ausn20''"
    by simp_all
  show "map_option totalTax (best inp) =
           Some (let t1 = (if js_lt ta tb then ta else tb);
                     t2 = (if js_lt t1 tc then t1 else tc)
                 in if js_lt t2 td then t2 else td)"
    by (simp add: best_unfold [OF l] pick_def t Let_def)
  show "map_option key (best inp) =
           Some (let k1 = (if js_lt ta tb then (js ''usn6'', ta) else (js ''usn15'', tb));
                     k2 = (if js_lt (snd k1) tc then k1 else (js ''ausn8'', tc))
                 in if js_lt (snd k2) td then fst k2 else js ''ausn20'')"
    by (simp add: best_unfold [OF l] pick_def t k Let_def)
qed


lemma nth_totals:
  assumes "map totalTax (scenarios inp) = [ta, tb, tc, td]"
  shows "totalTax (scenarios inp ! 0) = ta" "totalTax (scenarios inp ! 1) = tb"
    "totalTax (scenarios inp ! 2) = tc" "totalTax (scenarios inp ! 3) = td"
proof -
  obtain a b c d where l: "scenarios inp = [a, b, c, d]" using scenarios_four by blast
  with assms show "totalTax (scenarios inp ! 0) = ta" "totalTax (scenarios inp ! 1) = tb"
    "totalTax (scenarios inp ! 2) = tc" "totalTax (scenarios inp ! 3) = td"
    by simp_all
qed

lemma chart_values: "map value (chartData inp) = map (\<lambda>s. math_round (totalTax s)) (scenarios inp)"
  by (simp add: chartData_def)

lemma unit_chart: "map value (chartData unit_inputs) = [Finite 0, Finite 0, Finite 0, Finite 0]"
proof -
  have "map value (chartData unit_inputs) = map math_round (map totalTax (scenarios unit_inputs))"
    by (simp add: chart_values)
  then show ?thesis by (simp add: unit_scenarios floor_eq_iff)
qed

text \<open>
  Claim C1, as stated, fails in two ways. With every field 0 all four totals are 0 and the
  reduction returns ausn20, the last scenario, not the first: the callback keeps its
  left argument only on a strict \<open><\<close>. With trainings and AUSN expenses \<^verbatim>\<open>Infinity\<close> the total of
  ausn20 is NaN, every comparison with it is false, and the reduction returns ausn20
  although usn6 and usn15 have total 0.
\<close>

theorem best_first_minimum_counterexample:
  "map totalTax (scenarios zero_inputs) = [Finite 0, Finite 0, Finite 0, Finite 0]
   \<and> map_option key (best zero_inputs) = Some (js ''ausn20'')
   \<and> map_option key (best zero_inputs) \<noteq> Some (js ''usn6'')
   \<and> map totalTax (scenarios unbounded_inputs) = [Finite 0, Finite 0, PosInf, NaN]
   \<and> map_option key (best unbounded_inputs) = Some (js ''ausn20'')
   \<and> map_option totalTax (best unbounded_inputs) = Some NaN"
  by (simp add: zero_scenarios unbounded_scenarios best_by_totals [OF zero_scenarios]
      best_by_totals [OF unbounded_scenarios])
     (simp add: js_def cu_def)

text \<open>
  Claim C1, amended. For all inputs \<open>best\<close> is the pairwise reduction
  \<^verbatim>\<open>(a, b) => (a.totalTax < b.totalTax ? a : b)\<close> over the four scenarios in the order usn6,
  usn15, ausn8, ausn20, on their exact totals. It is one of the four; every scenario after
  it in that order has a strictly greater total, so that of several scenarios with the
  least total the last one wins; and when no total is NaN, no scenario has a smaller total
  than \<open>best\<close>. Rounding to the nearest integer is applied to the chart values only: with a
  royalty of 1 beside zeros all four chart values are 0, yet \<open>best\<close> is usn6 with its exact
  total, the double 0.06.
\<close>

theorem best_selection:
  "map key (scenarios inp) = [js ''usn6'', js ''usn15'', js ''ausn8'', js ''ausn20'']
   \<and> best inp = reduce pick (scenarios inp)
   \<and> (\<exists>i<4. best inp = Some (scenarios inp ! i)
        \<and> (\<forall>j. i < j \<and> j < 4 \<longrightarrow>
             js_lt (totalTax (scenarios inp ! i)) (totalTax (scenarios inp ! j)))
        \<and> ((\<forall>j<4. \<not> is_nan (totalTax (scenarios inp ! j))) \<longrightarrow>
             (\<forall>j<4. \<not> js_lt (totalTax (scenarios inp ! j)) (totalTax (scenarios inp ! i)))))
   \<and> map value (chartData inp) = map (\<lambda>s. math_round (totalTax s)) (scenarios inp)
   \<and> map value (chartData unit_inputs) = [Finite 0, Finite 0, Finite 0, Finite 0]
   \<and> map_option key (best unit_inputs) = Some (js ''usn6'')
   \<and> map_option totalTax (best unit_inputs) = Some (round_double (6 / 100))"
proof -
  have u: "map_option key (best unit_inputs) = Some (js ''usn6'')"
    "map_option totalTax (best unit_inputs) = Some (round_double (6 / 100))"
    by (simp_all add: best_by_totals [OF unit_scenarios] rate_06)
  show ?thesis
    using best_select [of inp] scenarios_keys [of inp] chart_values [of inp] unit_chart u
    by (simp only: best_def simp_thms)
qed

theorem best_selection_witness:
  "\<not> is_nan (totalTax (scenarios initial_inputs ! 0))
   \<and> \<not> is_nan (totalTax (scenarios initial_inputs ! 1))
   \<and> \<not> is_nan (totalTax (scenarios initial_inputs ! 2))
   \<and> \<not> is_nan (totalTax (scenarios initial_inputs ! 3))
   \<and> best initial_inputs = Some (scenarios initial_inputs ! 0)
   \<and> key (scenarios initial_inputs ! 0) = js ''usn6''
   \<and> totalTax (scenarios initial_inputs ! 0) = Finite 970000
   \<and> js_lt (totalTax (scenarios initial_inputs ! 0)) (totalTax (scenarios initial_inputs ! 1))
   \<and> js_lt (totalTax (scenarios initial_inputs ! 0)) (totalTax (scenarios initial_inputs ! 2))
   \<and> js_lt (totalTax (scenarios initial_inputs ! 0)) (totalTax (scenarios initial_inputs ! 3))"
proof -
  note t = nth_totals [OF initial_scenarios]
  have nn: "\<forall>j<4. \<not> is_nan (totalTax (scenarios initial_inputs ! j))"
  proof (intro allI impI)
    fix j :: nat assume "j < 4"
    then consider "j = 0" | "j = 1" | "j = 2" | "j = 3" by linarith
    then show "\<not> is_nan (totalTax (scenarios initial_inputs ! j))"
      by cases (simp_all only: t, simp_all)
  qed
  from best_selection [of initial_inputs] obtain i where i: "i < 4"
    and b: "best initial_inputs = Some (scenarios initial_inputs ! i)"
    and least: "(\<forall>j<4. \<not> is_nan (totalTax (scenarios initial_inputs ! j))) \<longrightarrow>
      (\<forall>j<4. \<not> js_lt (totalTax (scenarios initial_inputs ! j)) (totalTax (scenarios initial_inputs ! i)))"
    by blast
  from least nn have h: "\<not> js_lt (totalTax (scenarios initial_inputs ! 0)) (totalTax (scenarios initial_inputs ! i))"
    by simp
  have "i \<noteq> 1"
  proof
    assume "i = 1"
    with h have "\<not> js_lt (Finite 970000) (Finite 1420000)" by (simp only: t simp_thms)
    then show False by simp
  qed
  moreover have "i \<noteq> 2"
  proof
    assume "i = 2"
    with h have "\<not> js_lt (Finite 970000) (Finite 1200000)" by (simp only: t simp_thms)
    then show False by simp
  qed
  moreover have "i \<noteq> 3"
  proof
    assume "i = 3"
    with h have "\<not> js_lt (Finite 970000) (Finite 2760000)" by (simp only: t simp_thms)
    then show False by simp
  qed
  ultimately have "i = 0" using i by linarith
  with b have 1: "best initial_inputs = Some (scenarios initial_inputs ! 0)" by simp
  obtain a b c d where l: "scenarios initial_inputs = [a, b, c, d]"
    using scenarios_four by blast
  with scenarios_keys [of initial_inputs] have 2: "key (scenarios initial_inputs ! 0) = js ''usn6''"
    by simp
  have 3: "\<not> is_nan (totalTax (scenarios initial_inputs ! 0))"
    "\<not> is_nan (totalTax (scenarios initial_inputs ! 1))"
    "\<not> is_nan (totalTax (scenarios initial_inputs ! 2))"
    "\<not> is_nan (totalTax (scenarios initial_inputs ! 3))"
    "js_lt (totalTax (scenarios initial_inputs ! 0)) (totalTax (scenarios initial_inputs ! 1))"
    "js_lt (totalTax (scenarios initial_inputs ! 0)) (totalTax (scenarios initial_inputs ! 2))"
    "js_lt (totalTax (scenarios initial_inputs ! 0)) (totalTax (scenarios initial_inputs ! 3))"
    by (simp_all only: t) simp_all
  from 1 2 3 t(1) show ?thesis by blast
qed

end
